theory Spec2Isabelle
  imports Complex_Main "HOL-Library.Sublist" "HOL-Library.Multiset"
    "HOL-Library.Char_ord" "HOL-Library.List_Lexorder"
begin

section \<open>Text as the scripts handle it\<close>

text \<open>
  Python text is modelled as \<^typ>\<open>string\<close>, one \<^typ>\<open>char\<close> per code point below 256.
  The operations below are the \<^verbatim>\<open>str\<close> methods the scripts call, restricted to that range.
\<close>

definition is_space :: "char \<Rightarrow> bool" where
  \<comment> \<open>\<^verbatim>\<open>str.isspace\<close> on one code point: TAB..CR, FS..US, blank, NEL, NBSP.\<close>
  "is_space c = (let n = (of_char c :: nat) in
     (9 \<le> n \<and> n \<le> 13) \<or> (28 \<le> n \<and> n \<le> 32) \<or> n = 133 \<or> n = 160)"

definition py_strip :: "string \<Rightarrow> string" where
  \<comment> \<open>\<^verbatim>\<open>s.strip()\<close>\<close>
  "py_strip s = rev (dropWhile is_space (rev (dropWhile is_space s)))"

definition lower_char :: "char \<Rightarrow> char" where
  "lower_char c = (let n = (of_char c :: nat) in
     if (65 \<le> n \<and> n \<le> 90) \<or> (192 \<le> n \<and> n \<le> 214) \<or> (216 \<le> n \<and> n \<le> 222)
     then char_of (n + 32) else c)"

definition py_lower :: "string \<Rightarrow> string" where
  \<comment> \<open>\<^verbatim>\<open>s.lower()\<close>\<close>
  "py_lower s = map lower_char s"

fun py_split :: "char \<Rightarrow> string \<Rightarrow> string list" where
  \<comment> \<open>\<^verbatim>\<open>s.split(sep)\<close> for a one-character separator; the result is never empty.\<close>
  "py_split sep [] = [[]]"
| "py_split sep (c # cs) =
     (let r = py_split sep cs in if c = sep then [] # r else (c # hd r) # tl r)"

definition startswith :: "string \<Rightarrow> string \<Rightarrow> bool" where
  \<comment> \<open>\<^verbatim>\<open>s.startswith(p)\<close>\<close>
  "startswith s p = (take (length p) s = p)"

fun py_contains :: "string \<Rightarrow> string \<Rightarrow> bool" where
  \<comment> \<open>\<^verbatim>\<open>sub in s\<close>: \<open>sub\<close> occurs in \<open>s\<close> as a contiguous run.\<close>
  "py_contains [] sub = (sub = [])"
| "py_contains (c # cs) sub = (startswith (c # cs) sub \<or> py_contains cs sub)"

definition py_lstrip :: "char \<Rightarrow> string \<Rightarrow> string" where
  \<comment> \<open>\<^verbatim>\<open>s.lstrip(ch)\<close> for a one-character set.\<close>
  "py_lstrip ch s = dropWhile (\<lambda>c. c = ch) s"

section \<open>Cells\<close>

text \<open>
  A cell of a table as \<^verbatim>\<open>pandas.read_csv\<close> delivers it: missing (\<^verbatim>\<open>NaN\<close>), a number, or text.
\<close>

datatype cell = NaN | Num real | Str string

definition isna :: "cell \<Rightarrow> bool" where
  "isna c = (c = NaN)"

definition number_key :: "cell \<Rightarrow> real" where
  "number_key c = (case c of Num r \<Rightarrow> r | _ \<Rightarrow> 0)"

text \<open>
  What the libraries do is not part of the repository and is taken as parameters:
  how \<^verbatim>\<open>pandas.to_numeric\<close> reads one text cell (\<open>None\<close> when it is not a number);
  how \<^verbatim>\<open>float\<close> reads text (\<open>None\<close> when it raises \<^verbatim>\<open>ValueError\<close>);
  how \<^verbatim>\<open>str\<close> renders a number;
  the double that \<^verbatim>\<open>float\<close> makes of a number (the number itself for a float cell and for
  an integer cell up to \<open>2^53\<close>);
  the order in which \<^verbatim>\<open>sort_values\<close> puts the rows, as the positions of the rows, given
  the cells of the sort column and the ascending flag;
  and whether \<^verbatim>\<open>st.slider\<close> accepts a pair of bounds.
  Every theorem holds for all of them, under the hypotheses it states.
\<close>

record pylib =
  text_to_num :: "string \<Rightarrow> real option"
  text_to_float :: "string \<Rightarrow> real option"
  num_to_text :: "real \<Rightarrow> string"
  to_double :: "real \<Rightarrow> real"
  argsort :: "cell list \<Rightarrow> bool \<Rightarrow> nat list"
  slider_accepts :: "real \<Rightarrow> real \<Rightarrow> bool"

definition py_str :: "pylib \<Rightarrow> cell \<Rightarrow> string" where
  \<comment> \<open>\<^verbatim>\<open>str(x)\<close>, also what \<^verbatim>\<open>astype(str)\<close> does to one cell\<close>
  "py_str L c = (case c of NaN \<Rightarrow> ''nan'' | Num r \<Rightarrow> num_to_text L r | Str s \<Rightarrow> s)"

section \<open>Image URL reconstruction\<close>

definition cdn_base :: string where
  "cdn_base = ''https://imgcdn1.gempundit.com/media/catalog/product''"

definition image_filename :: "pylib \<Rightarrow> cell \<Rightarrow> string" where
  \<comment> \<open>the value of \<^verbatim>\<open>s\<close> in \<^verbatim>\<open>get_magento_url\<close> when the length test is reached\<close>
  "image_filename L img_name =
     (let full_str = py_strip (py_str L img_name);
          filename = last (py_split CHR ''/'' full_str);
          s = py_lower filename
      in if \<not> startswith s ''gp'' then ''gp'' @ s else s)"

definition get_magento_url :: "pylib \<Rightarrow> cell \<Rightarrow> string" where
  "get_magento_url L img_name =
     (if isna img_name \<or> img_name = Str '''' then ''''
      else
        let s = image_filename L img_name
        in if length s \<ge> 2
           then cdn_base @ ''/'' @ [s ! 0] @ ''/'' @ [s ! 1] @ ''/'' @ s
           else cdn_base @ ''/'' @ s)"

text \<open>
  The reconstruction as the specification words it, on the stored text (\<open>None\<close> is a missing
  reference): last path segment, lower-cased, brand prefix prepended when absent, then the
  two-level directory when there are at least two characters.
\<close>

definition spec_image_steps :: "string \<Rightarrow> string" where
  "spec_image_steps ref =
     (let seg = last (py_split CHR ''/'' ref);
          low = py_lower seg;
          pre = (if startswith low ''gp'' then low else ''gp'' @ low)
      in if length pre \<ge> 2
         then cdn_base @ ''/'' @ [pre ! 0] @ ''/'' @ [pre ! 1] @ ''/'' @ pre
         else cdn_base @ ''/'' @ pre)"

definition spec_image_url :: "string option \<Rightarrow> string" where
  "spec_image_url ref = (case ref of None \<Rightarrow> '''' | Some t \<Rightarrow> if t = '''' then '''' else spec_image_steps t)"

section \<open>Tables\<close>

text \<open>
  A \<^verbatim>\<open>DataFrame\<close> is its list of column names and its rows in order; a row gives the
  cell of every column. Exceptions are values of \<open>py_error\<close>.
\<close>

type_synonym row = "string \<Rightarrow> cell"

record dataframe =
  columns :: "string list"
  rows :: "row list"

datatype py_error =
    KeyError string
  | TypeError
  | AttributeError
  | RuntimeError string
  | RequestException string
  | ParserError string
  | StreamlitAPIException string

definition bind_err :: "'e + 'a \<Rightarrow> ('a \<Rightarrow> 'e + 'b) \<Rightarrow> 'e + 'b" where
  "bind_err m f = (case m of Inl e \<Rightarrow> Inl e | Inr x \<Rightarrow> f x)"

definition empty_frame :: dataframe where
  \<comment> \<open>\<^verbatim>\<open>pd.DataFrame()\<close>\<close>
  "empty_frame = \<lparr>columns = [], rows = []\<rparr>"

definition has_column :: "dataframe \<Rightarrow> string \<Rightarrow> bool" where
  \<comment> \<open>\<^verbatim>\<open>c in df.columns\<close>\<close>
  "has_column df c = (c \<in> set (columns df))"

definition column_values :: "dataframe \<Rightarrow> string \<Rightarrow> cell list" where
  "column_values df c = map (\<lambda>r. r c) (rows df)"

definition lookup_column :: "dataframe \<Rightarrow> string \<Rightarrow> py_error + cell list" where
  \<comment> \<open>\<^verbatim>\<open>df[c]\<close>\<close>
  "lookup_column df c = (if has_column df c then Inr (column_values df c) else Inl (KeyError c))"

definition assign :: "dataframe \<Rightarrow> string \<Rightarrow> (row \<Rightarrow> cell) \<Rightarrow> dataframe" where
  \<comment> \<open>\<^verbatim>\<open>df[c] = ...\<close> with the new cell computed row by row; a new column is appended\<close>
  "assign df c f =
     \<lparr>columns = (if c \<in> set (columns df) then columns df else columns df @ [c]),
      rows = map (\<lambda>r. r(c := f r)) (rows df)\<rparr>"

definition select_rows :: "dataframe \<Rightarrow> bool list \<Rightarrow> dataframe" where
  \<comment> \<open>\<^verbatim>\<open>df[mask]\<close>\<close>
  "select_rows df keep = \<lparr>columns = columns df, rows = map snd (filter fst (zip keep (rows df)))\<rparr>"

definition mask_and :: "bool list \<Rightarrow> bool list \<Rightarrow> bool list" where
  \<comment> \<open>\<^verbatim>\<open>a & b\<close> on boolean series\<close>
  "mask_and a b = map2 (\<and>) a b"

definition mask_not :: "bool list \<Rightarrow> bool list" where
  \<comment> \<open>\<^verbatim>\<open>~a\<close>\<close>
  "mask_not a = map Not a"

definition is_text :: "cell \<Rightarrow> bool" where
  "is_text c = (case c of Str _ \<Rightarrow> True | _ \<Rightarrow> False)"

definition is_num :: "cell \<Rightarrow> bool" where
  "is_num c = (case c of Num _ \<Rightarrow> True | _ \<Rightarrow> False)"

definition to_numeric :: "pylib \<Rightarrow> cell \<Rightarrow> cell" where
  \<comment> \<open>\<^verbatim>\<open>pd.to_numeric(..., errors="coerce")\<close> on one cell\<close>
  "to_numeric L c =
     (case c of NaN \<Rightarrow> NaN | Num r \<Rightarrow> Num r
      | Str s \<Rightarrow> (case text_to_num L s of None \<Rightarrow> NaN | Some r \<Rightarrow> Num r))"

definition fillna :: "string \<Rightarrow> cell \<Rightarrow> cell" where
  "fillna t c = (if isna c then Str t else c)"

definition compare_number :: "(real \<Rightarrow> real \<Rightarrow> bool) \<Rightarrow> cell list \<Rightarrow> real \<Rightarrow> py_error + bool list" where
  \<comment> \<open>\<^verbatim>\<open>series > k\<close>, \<^verbatim>\<open>series >= k\<close>, \<^verbatim>\<open>series <= k\<close>: text against a number raises, NaN compares false\<close>
  "compare_number cmp col k =
     (if list_ex is_text col then Inl TypeError
      else Inr (map (\<lambda>c. case c of Num r \<Rightarrow> cmp r k | _ \<Rightarrow> False) col))"

definition equals_number :: "cell list \<Rightarrow> real \<Rightarrow> bool list" where
  \<comment> \<open>\<^verbatim>\<open>series == k\<close>\<close>
  "equals_number col k = map (\<lambda>c. c = Num k) col"

definition equals_text :: "cell list \<Rightarrow> string \<Rightarrow> bool list" where
  \<comment> \<open>\<^verbatim>\<open>series == "text"\<close>\<close>
  "equals_text col t = map (\<lambda>c. c = Str t) col"

definition contains_ci :: "string \<Rightarrow> string \<Rightarrow> bool" where
  \<comment> \<open>a match of the literal pattern ignoring case\<close>
  "contains_ci s pat = py_contains (py_lower s) (py_lower pat)"

definition str_contains :: "bool \<Rightarrow> string \<Rightarrow> cell list \<Rightarrow> py_error + bool list" where
  \<comment> \<open>\<^verbatim>\<open>series.str.contains(pat, case=cs, na=False)\<close> for a literal pattern. The \<^verbatim>\<open>.str\<close>
      accessor refuses a column of numbers; a cell that is not text gives \<open>na\<close>, here False.\<close>
  "str_contains cs pat col =
     (if col \<noteq> [] \<and> list_all is_num col then Inl AttributeError
      else Inr (map (\<lambda>c. case c of
                    Str s \<Rightarrow> (if cs then py_contains s pat else contains_ci s pat)
                  | _ \<Rightarrow> False) col))"

section \<open>The cleaner\<close>

definition numeric_conversions :: "pylib \<Rightarrow> dataframe \<Rightarrow> dataframe \<times> (py_error + unit)" where
  \<comment> \<open>the two assignments that open the filter block; they write into the table they are given,
      so the table is returned as it stands afterwards\<close>
  "numeric_conversions L df =
     (case lookup_column df ''qty'' of
        Inl e \<Rightarrow> (df, Inl e)
      | Inr _ \<Rightarrow>
          let df1 = assign df ''qty'' (\<lambda>r. to_numeric L (r ''qty''))
          in (case lookup_column df1 ''is_in_stock'' of
                Inl e \<Rightarrow> (df1, Inl e)
              | Inr _ \<Rightarrow>
                  (assign df1 ''is_in_stock'' (\<lambda>r. to_numeric L (r ''is_in_stock'')), Inr ())))"

definition base_mask :: "pylib \<Rightarrow> dataframe \<Rightarrow> py_error + bool list" where
  \<comment> \<open>the six-way conjunction, its operands evaluated left to right\<close>
  "base_mask L df =
     bind_err (lookup_column df ''attribute_set_id'') (\<lambda>a.
     bind_err (lookup_column df ''sku'') (\<lambda>s.
     bind_err (str_contains True ''GP'' (map (\<lambda>c. Str (py_str L c)) s)) (\<lambda>m_sku.
     bind_err (lookup_column df ''qty'') (\<lambda>q.
     bind_err (compare_number (>) q 0) (\<lambda>m_qty.
     bind_err (lookup_column df ''is_in_stock'') (\<lambda>i.
     bind_err (lookup_column df ''product_type'') (\<lambda>p.
     bind_err (str_contains False ''pendant'' (map (fillna '''') p)) (\<lambda>m_pendant.
     bind_err (lookup_column df ''price'') (\<lambda>pr.
     bind_err (compare_number (>) pr 0) (\<lambda>m_price.
       Inr (mask_and (mask_and (mask_and (mask_and (mask_and
              (equals_text a ''Gemstones'') m_sku) m_qty) (equals_number i 1))
              (mask_not m_pendant)) m_price)))))))))))"

definition filter_block :: "pylib \<Rightarrow> dataframe \<Rightarrow> dataframe \<times> (py_error + dataframe)" where
  \<comment> \<open>numeric conversions, then \<^verbatim>\<open>df[...].copy()\<close>: the same text in all three scripts\<close>
  "filter_block L df =
     (let (df', r) = numeric_conversions L df
      in (df', bind_err r (\<lambda>_. bind_err (base_mask L df') (\<lambda>m. Inr (select_rows df' m)))))"

definition numeric_cols :: "string list" where
  "numeric_cols = [''carat_weight'', ''weight_ratti'', ''price'']"

definition product_base :: string where
  "product_base = ''https://www.gempundit.com/products/''"

definition text_of :: "cell \<Rightarrow> string" where
  \<comment> \<open>the text of a cell known to be text\<close>
  "text_of c = (case c of Str s \<Rightarrow> s | _ \<Rightarrow> [])"

definition coerce_numeric_cols :: "pylib \<Rightarrow> dataframe \<Rightarrow> dataframe" where
  \<comment> \<open>the loop over \<^verbatim>\<open>numeric_cols\<close>\<close>
  "coerce_numeric_cols L g =
     fold (\<lambda>col d. if has_column d col then assign d col (\<lambda>r. to_numeric L (r col)) else d)
       numeric_cols g"

definition format_url_key :: "pylib \<Rightarrow> dataframe \<Rightarrow> dataframe" where
  "format_url_key L g =
     (if has_column g ''url_key''
      then let u = assign g ''url_key'' (\<lambda>r. Str (py_str L (fillna [] (r ''url_key''))))
           in assign u ''url_key''
                (\<lambda>r. Str (product_base @ py_lstrip CHR ''/'' (text_of (r ''url_key''))))
      else g)"

definition format_image :: "pylib \<Rightarrow> dataframe \<Rightarrow> dataframe" where
  "format_image L g =
     (if has_column g ''image''
      then assign g ''image'' (\<lambda>r. Str (get_magento_url L (r ''image'')))
      else g)"

definition format_columns :: "pylib \<Rightarrow> dataframe \<Rightarrow> dataframe" where
  \<comment> \<open>the rest of \<^verbatim>\<open>process_dataframe\<close>, on the copy\<close>
  "format_columns L g = format_image L (format_url_key L (coerce_numeric_cols L g))"

definition process_dataframe :: "pylib \<Rightarrow> dataframe \<Rightarrow> dataframe \<times> (py_error + dataframe)" where
  "process_dataframe L df =
     (let (df', r) = filter_block L df
      in (df', bind_err r (\<lambda>g. Inr (format_columns L g))))"

text \<open>The six conditions of the specification on one row, and the two coercions on one row.\<close>

definition positive :: "cell \<Rightarrow> bool" where
  "positive c = (case c of Num x \<Rightarrow> x > 0 | _ \<Rightarrow> False)"

definition gemstone_row :: "pylib \<Rightarrow> row \<Rightarrow> bool" where
  "gemstone_row L r =
     (r ''attribute_set_id'' = Str ''Gemstones''
      \<and> py_contains (py_str L (r ''sku'')) ''GP''
      \<and> positive (r ''qty'')
      \<and> r ''is_in_stock'' = Num 1
      \<and> \<not> contains_ci (text_of (r ''product_type'')) ''pendant''
      \<and> positive (r ''price''))"

definition coerce_row :: "pylib \<Rightarrow> row \<Rightarrow> row" where
  "coerce_row L r = r(''qty'' := to_numeric L (r ''qty''),
                      ''is_in_stock'' := to_numeric L (r ''is_in_stock''))"

definition coerce_numeric_row :: "pylib \<Rightarrow> string list \<Rightarrow> row \<Rightarrow> row" where
  "coerce_numeric_row L cols r =
     fold (\<lambda>col x. if col \<in> set cols then x(col := to_numeric L (x col)) else x) numeric_cols r"

definition format_url_row :: "pylib \<Rightarrow> string list \<Rightarrow> row \<Rightarrow> row" where
  "format_url_row L cols r =
     (if ''url_key'' \<in> set cols
      then r(''url_key'' := Str (product_base @ py_lstrip CHR ''/'' (py_str L (fillna [] (r ''url_key'')))))
      else r)"

definition format_image_row :: "pylib \<Rightarrow> string list \<Rightarrow> row \<Rightarrow> row" where
  "format_image_row L cols r =
     (if ''image'' \<in> set cols then r(''image'' := Str (get_magento_url L (r ''image''))) else r)"

definition format_row :: "pylib \<Rightarrow> string list \<Rightarrow> row \<Rightarrow> row" where
  \<comment> \<open>what \<open>format_columns\<close> does to one row of a table with the columns \<open>cols\<close>\<close>
  "format_row L cols r = format_image_row L cols (format_url_row L cols (coerce_numeric_row L cols r))"

section \<open>Decimal text\<close>

definition digit_char :: "nat \<Rightarrow> char" where
  "digit_char d = ''0123456789'' ! d"

fun digits_of :: "nat \<Rightarrow> string" where
  "digits_of n = (if n < 10 then [digit_char n] else digits_of (n div 10) @ [digit_char (n mod 10)])"

declare digits_of.simps [simp del]

definition is_digit :: "char \<Rightarrow> bool" where
  "is_digit c = (let n = (of_char c :: nat) in 48 \<le> n \<and> n \<le> 57)"

definition nat_of_digits :: "string \<Rightarrow> nat" where
  "nat_of_digits s = foldl (\<lambda>n c. 10 * n + (of_char c - 48)) 0 s"

definition plain_number :: "string \<Rightarrow> real option" where
  \<comment> \<open>reads a run of decimal digits and nothing else\<close>
  "plain_number s = (if s \<noteq> [] \<and> list_all is_digit s then Some (real (nat_of_digits s)) else None)"

definition plain_argsort :: "cell list \<Rightarrow> bool \<Rightarrow> nat list" where
  \<comment> \<open>the positions of a column of numbers in the order of their values\<close>
  "plain_argsort col ascending =
     (let ps = sort_key (\<lambda>i. number_key (col ! i)) [0..<length col]
      in if ascending then ps else rev ps)"

definition sample_lib :: pylib where
  \<comment> \<open>an instance of the library parameters for evaluating the model on sample tables: text
      cells are runs of digits or hold no digit at all, numbers are small integers, sort columns
      hold numbers that differ from each other, and the slider wants its minimum below its maximum\<close>
  "sample_lib = \<lparr>text_to_num = plain_number, text_to_float = plain_number,
                  num_to_text = (\<lambda>r. digits_of (nat \<lfloor>r\<rfloor>) @ ''.0''),
                  to_double = (\<lambda>r. r),
                  argsort = plain_argsort,
                  slider_accepts = (\<lambda>lo hi. lo < hi)\<rparr>"

section \<open>A sample export\<close>

definition blank_row :: row where
  "blank_row = (\<lambda>_. NaN)"

definition ruby_row :: row where
  "ruby_row = blank_row(''sku'' := Str ''GP100'', ''attribute_set_id'' := Str ''Gemstones'',
     ''qty'' := Str ''3'', ''is_in_stock'' := Num 1, ''product_type'' := Str ''Loose Stone'',
     ''price'' := Num 700000, ''carat_weight'' := Num 2, ''image'' := Str ''g/p/GP100.JPG'',
     ''url_key'' := Str ''/ruby-100'', ''gemstone'' := Str ''Ruby'', ''shape'' := Str ''Oval'')"

definition pendant_row :: row where
  "pendant_row = blank_row(''sku'' := Str ''GP200'', ''attribute_set_id'' := Str ''Gemstones'',
     ''qty'' := Str ''5'', ''is_in_stock'' := Num 1, ''product_type'' := Str ''Ruby PENDANT'',
     ''price'' := Num 1200, ''carat_weight'' := Num 1, ''image'' := Str ''200.jpg'',
     ''url_key'' := Str ''ruby-pendant'', ''gemstone'' := Str ''Ruby'', ''shape'' := Str ''Round'')"

definition emerald_row :: row where
  "emerald_row = blank_row(''sku'' := Str ''GP300'', ''attribute_set_id'' := Str ''Gemstones'',
     ''qty'' := Str ''few'', ''is_in_stock'' := Num 1, ''product_type'' := Str ''Loose Stone'',
     ''price'' := Num 5000, ''carat_weight'' := Num 3, ''image'' := Str ''300.jpg'',
     ''url_key'' := Str ''emerald-300'', ''gemstone'' := Str ''Emerald'', ''shape'' := Str ''Oval'')"

definition sapphire_row :: row where
  "sapphire_row = blank_row(''sku'' := Str ''GP400'', ''attribute_set_id'' := Str ''Gemstones'',
     ''qty'' := Str ''1'', ''is_in_stock'' := Num 1,
     ''price'' := Num 800000, ''carat_weight'' := Num 4, ''image'' := Str ''400.jpg'',
     ''url_key'' := Str ''sapphire-400'', ''gemstone'' := Str ''Sapphire'', ''shape'' := Str ''Round'')"

definition sample_columns :: "string list" where
  "sample_columns = [''sku'', ''attribute_set_id'', ''qty'', ''is_in_stock'', ''product_type'',
     ''price'', ''carat_weight'', ''image'', ''url_key'', ''gemstone'', ''shape'']"

definition sample_raw :: dataframe where
  "sample_raw = \<lparr>columns = sample_columns,
                  rows = [ruby_row, pendant_row, emerald_row, sapphire_row]\<rparr>"

section \<open>Cascading categorical filters\<close>

record cascade_state =
  current_df :: dataframe
  selected_filters :: "string \<rightharpoonup> string list"
  offered :: "(string \<times> string list) list"

definition start_cascade :: "dataframe \<Rightarrow> cascade_state" where
  \<comment> \<open>\<^verbatim>\<open>current_df = df_processed.copy()\<close>, \<^verbatim>\<open>selected_filters = {}\<close>; \<open>offered\<close> records
      the option list handed to each multiselect\<close>
  "start_cascade df_processed =
     \<lparr>current_df = df_processed, selected_filters = Map.empty, offered = []\<rparr>"

subsection \<open>First dashboard\<close>

definition filter_order_app :: "(string \<times> string) list" where
  "filter_order_app =
     [(''gemstone'', ''Gemstone''), (''shape'', ''Shape''), (''cut'', ''Cut''),
      (''treatment'', ''Treatment''), (''origin'', ''Origin''), (''color'', ''Color''),
      (''dimension_type'', ''Dimension Type''), (''product_type'', ''Product Type''),
      (''certification'', ''Certification'')]"

definition options_app :: "pylib \<Rightarrow> dataframe \<Rightarrow> string \<Rightarrow> string list" where
  \<comment> \<open>\<^verbatim>\<open>sorted(current_df[col_name].dropna().unique().astype(str))\<close>\<close>
  "options_app L df col_name =
     sort (map (py_str L) (remdups (filter (\<lambda>c. \<not> isna c) (column_values df col_name))))"

definition isin :: "cell \<Rightarrow> string list \<Rightarrow> bool" where
  \<comment> \<open>one cell of \<^verbatim>\<open>series.isin(val)\<close> for a list of texts\<close>
  "isin c vs = (case c of Str s \<Rightarrow> s \<in> set vs | _ \<Rightarrow> False)"

definition narrow_app :: "dataframe \<Rightarrow> string \<Rightarrow> string list \<Rightarrow> dataframe" where
  \<comment> \<open>\<^verbatim>\<open>current_df[current_df[col_name].isin(val)]\<close>\<close>
  "narrow_app df col_name vs = select_rows df (map (\<lambda>c. isin c vs) (column_values df col_name))"

fun cascade_app :: "pylib \<Rightarrow> (string \<Rightarrow> string list) \<Rightarrow> (string \<times> string) list
                    \<Rightarrow> cascade_state \<Rightarrow> cascade_state" where
  \<comment> \<open>the loop over \<^verbatim>\<open>filter_order\<close>; \<open>multiselect col_name\<close> is what the widget with the
      key of that column returns in this pass\<close>
  "cascade_app L multiselect [] st = st"
| "cascade_app L multiselect ((col_name, label) # rest) st =
     (if has_column (current_df st) col_name
      then
        let opts = options_app L (current_df st) col_name;
            vs = multiselect col_name;
            st1 = st\<lparr>offered := offered st @ [(col_name, opts)]\<rparr>
        in cascade_app L multiselect rest
             (if vs \<noteq> []
              then st1\<lparr>current_df := narrow_app (current_df st1) col_name vs,
                       selected_filters := (selected_filters st1)(col_name \<mapsto> vs)\<rparr>
              else st1)
      else cascade_app L multiselect rest st)"

subsection \<open>Second dashboard\<close>

definition filter_order_st :: "(string \<times> string) list" where
  "filter_order_st =
     [(''gemstone'', ''Gemstone''), (''shape'', ''Shape''), (''cut'', ''Cut''),
      (''treatment'', ''Treatment''), (''origin'', ''Origin''), (''j_colour'', ''Colour''),
      (''dimension_type'', ''Dimension Type''), (''product_type'', ''Product Type''),
      (''certification'', ''Certification'')]"

definition options_st :: "pylib \<Rightarrow> dataframe \<Rightarrow> string \<Rightarrow> string list" where
  \<comment> \<open>\<^verbatim>\<open>sorted(current_df[col_name].fillna("None").astype(str).unique())\<close>\<close>
  "options_st L df col_name =
     sort (remdups (map (\<lambda>c. py_str L (fillna ''None'' c)) (column_values df col_name)))"

definition mask_or :: "bool list \<Rightarrow> bool list \<Rightarrow> bool list" where
  \<comment> \<open>\<^verbatim>\<open>a | b\<close> on boolean series\<close>
  "mask_or a b = map2 (\<or>) a b"

definition mask_step :: "cell list \<Rightarrow> string \<Rightarrow> bool list \<Rightarrow> bool list" where
  \<comment> \<open>one round of \<^verbatim>\<open>for v in val\<close>\<close>
  "mask_step col v m =
     (if v = ''None''
      then mask_or m (mask_or (map isna col) (equals_text col ''None''))
      else mask_or m (equals_text col v))"

definition narrow_st :: "dataframe \<Rightarrow> string \<Rightarrow> string list \<Rightarrow> dataframe" where
  \<comment> \<open>the mask starts all False, takes one round per selected value, then selects\<close>
  "narrow_st df col_name vs =
     select_rows df
       (fold (mask_step (column_values df col_name)) vs (replicate (length (rows df)) False))"

fun cascade_st :: "pylib \<Rightarrow> (string \<Rightarrow> string list) \<Rightarrow> (string \<times> string) list
                   \<Rightarrow> cascade_state \<Rightarrow> cascade_state" where
  "cascade_st L multiselect [] st = st"
| "cascade_st L multiselect ((col_name, label) # rest) st =
     (if has_column (current_df st) col_name
      then
        let opts = options_st L (current_df st) col_name;
            vs = multiselect col_name;
            st1 = st\<lparr>offered := offered st @ [(col_name, opts)]\<rparr>
        in cascade_st L multiselect rest
             (if vs \<noteq> []
              then st1\<lparr>current_df := narrow_st (current_df st1) col_name vs,
                       selected_filters := (selected_filters st1)(col_name \<mapsto> vs)\<rparr>
              else st1)
      else cascade_st L multiselect rest st)"

definition no_choice :: "string \<Rightarrow> string list" where
  \<comment> \<open>every multiselect left empty\<close>
  "no_choice = (\<lambda>_. [])"

definition clean_row :: "string \<Rightarrow> string \<Rightarrow> string \<Rightarrow> real \<Rightarrow> real \<Rightarrow> row" where
  "clean_row sku_text gem shape_text price_value carat =
     blank_row(''sku'' := Str sku_text, ''gemstone'' := Str gem, ''shape'' := Str shape_text,
       ''product_type'' := Str ''Loose Stone'', ''price'' := Num price_value,
       ''carat_weight'' := Num carat)"

definition sample_processed :: dataframe where
  \<comment> \<open>a cleaned table of four stones\<close>
  "sample_processed =
     \<lparr>columns = [''sku'', ''gemstone'', ''shape'', ''product_type'', ''price'', ''carat_weight''],
      rows = [clean_row ''GP100'' ''Ruby'' ''Oval'' 700000 2,
              clean_row ''GP400'' ''Sapphire'' ''Round'' 800000 4,
              clean_row ''GP300'' ''Emerald'' ''Oval'' 5000 3,
              clean_row ''GP101'' ''Ruby'' ''Round'' 900 1]\<rparr>"

definition offers_within :: "(string \<times> string list) list \<Rightarrow> (string \<times> string list) list \<Rightarrow> bool" where
  \<comment> \<open>the same filters in the same order, each with an option set inside the other's\<close>
  "offers_within a b = list_all2 (\<lambda>x y. fst x = fst y \<and> set (snd x) \<subseteq> set (snd y)) a b"

definition hit :: "string \<Rightarrow> cell \<Rightarrow> bool" where
  \<comment> \<open>whether a selected value of the second dashboard matches a cell\<close>
  "hit v c = (if v = ''None'' then isna c \<or> c = Str ''None'' else c = Str v)"

section \<open>Session state\<close>

text \<open>
  \<^verbatim>\<open>st.session_state\<close>, one field per family of keys: \<^verbatim>\<open>show_results\<close>, \<^verbatim>\<open>current_page\<close>,
  and for a numeric column \<open>c\<close> the keys \<^verbatim>\<open>slider_c\<close>, \<^verbatim>\<open>min_c\<close> and \<^verbatim>\<open>max_c\<close>. A key
  that is not set is \<open>None\<close>.
\<close>

record session =
  show_results :: "bool option"
  current_page :: "int option"
  slider :: "string \<rightharpoonup> real \<times> real"
  min_input :: "string \<rightharpoonup> real"
  max_input :: "string \<rightharpoonup> real"

definition new_session :: session where
  "new_session = \<lparr>show_results = None, current_page = None, slider = Map.empty,
                   min_input = Map.empty, max_input = Map.empty\<rparr>"

section \<open>Numeric range filters\<close>

definition numbers :: "cell list \<Rightarrow> real list" where
  "numbers col = List.map_filter (\<lambda>c. case c of Num r \<Rightarrow> Some r | _ \<Rightarrow> None) col"

definition series_min :: "cell list \<Rightarrow> py_error + real option" where
  \<comment> \<open>\<^verbatim>\<open>float(series.min())\<close> of a numeric column: NaN cells are skipped, \<open>None\<close> is NaN.
      These columns hold no text in a cleaned table; text is reported as an exception.\<close>
  "series_min col =
     (if list_ex is_text col then Inl TypeError
      else Inr (case numbers col of [] \<Rightarrow> None | x # xs \<Rightarrow> Some (fold min xs x)))"

definition series_max :: "cell list \<Rightarrow> py_error + real option" where
  "series_max col =
     (if list_ex is_text col then Inl TypeError
      else Inr (case numbers col of [] \<Rightarrow> None | x # xs \<Rightarrow> Some (fold max xs x)))"

record ranges =
  state :: session
  slider_bounds :: "(string \<times> real \<times> real) list"
  range_selections :: "(string \<times> real \<times> real) list"

definition start_ranges :: "session \<Rightarrow> ranges" where
  "start_ranges ss = \<lparr>state = ss, slider_bounds = [], range_selections = []\<rparr>"

subsection \<open>First dashboard\<close>

definition range_cols :: "string list" where
  "range_cols = [''carat_weight'', ''price'', ''weight_ratti'']"

definition app_global_bounds :: "dataframe \<Rightarrow> string \<Rightarrow> py_error + (real \<times> real)" where
  \<comment> \<open>\<^verbatim>\<open>min_global\<close> and \<^verbatim>\<open>max_global\<close>, with the defaults for NaN\<close>
  "app_global_bounds df_processed col =
     bind_err (series_min (column_values df_processed col)) (\<lambda>mn.
     bind_err (series_max (column_values df_processed col)) (\<lambda>mx.
       Inr (case mn of None \<Rightarrow> 0 | Some x \<Rightarrow> x, case mx of None \<Rightarrow> 1 | Some x \<Rightarrow> x)))"

definition app_sync_slider ::
  "string \<Rightarrow> real \<times> real \<Rightarrow> real \<times> real \<Rightarrow> session \<Rightarrow> session \<times> (real \<times> real)" where
  \<comment> \<open>from the initialisation of the slider key to the slider widget. The pair \<open>inputs\<close> is what
      the two \<^verbatim>\<open>number_input\<close> widgets return; the slider returns the value under its key.\<close>
  "app_sync_slider col bounds inputs ss =
     (let current = (case slider ss col of Some v \<Rightarrow> v | None \<Rightarrow> bounds);
          ss1 = ss\<lparr>slider := (slider ss)(col \<mapsto> current)\<rparr>;
          current_min = fst current; current_max = snd current;
          val_min = fst inputs; val_max = snd inputs
      in if val_min \<noteq> current_min \<or> val_max \<noteq> current_max
         then let val_min' = (if val_min > val_max then val_max else val_min)
              in (ss1\<lparr>slider := (slider ss1)(col \<mapsto> (val_min', val_max))\<rparr>, (val_min', val_max))
         else (ss1, current))"

definition app_range_filter ::
  "pylib \<Rightarrow> dataframe \<Rightarrow> string \<Rightarrow> real \<times> real \<Rightarrow> session
     \<Rightarrow> py_error + (session \<times> (real \<times> real) \<times> (real \<times> real))" where
  \<comment> \<open>one round of the loop over \<^verbatim>\<open>range_cols\<close>: the session, the bounds given to the
      widgets, and the slider's value. The round ends in the slider's exception when the slider
      does not accept the bounds.\<close>
  "app_range_filter L df_processed col inputs ss =
     bind_err (app_global_bounds df_processed col) (\<lambda>bounds.
       if slider_accepts L (fst bounds) (snd bounds)
       then Inr (fst (app_sync_slider col bounds inputs ss), bounds,
                 snd (app_sync_slider col bounds inputs ss))
       else Inl (StreamlitAPIException col))"

fun app_range_filters ::
  "pylib \<Rightarrow> dataframe \<Rightarrow> (string \<Rightarrow> real \<times> real) \<Rightarrow> string list \<Rightarrow> ranges
     \<Rightarrow> py_error + ranges" where
  "app_range_filters L df_processed number_input [] acc = Inr acc"
| "app_range_filters L df_processed number_input (col # rest) acc =
     (if has_column df_processed col
      then bind_err (app_range_filter L df_processed col (number_input col) (state acc))
             (\<lambda>(ss, b, v). app_range_filters L df_processed number_input rest
                 \<lparr>state = ss, slider_bounds = slider_bounds acc @ [(col, b)],
                  range_selections = range_selections acc @ [(col, v)]\<rparr>)
      else app_range_filters L df_processed number_input rest acc)"

subsection \<open>Second dashboard\<close>

definition update_slider :: "string \<Rightarrow> session \<Rightarrow> py_error + session" where
  "update_slider key_prefix ss =
     (case slider ss key_prefix of
        None \<Rightarrow> Inl (KeyError (''slider_'' @ key_prefix))
      | Some v \<Rightarrow>
          let ss1 = ss\<lparr>min_input := (min_input ss)(key_prefix \<mapsto> fst v)\<rparr>
          in Inr (ss1\<lparr>max_input := (max_input ss1)(key_prefix \<mapsto> snd v)\<rparr>))"

definition update_input :: "string \<Rightarrow> session \<Rightarrow> session" where
  \<comment> \<open>a missing key raises inside the \<^verbatim>\<open>try\<close> and the handler passes: the session is left as it is\<close>
  "update_input key_prefix ss =
     (case min_input ss key_prefix of
        None \<Rightarrow> ss
      | Some new_min \<Rightarrow>
          (case max_input ss key_prefix of
             None \<Rightarrow> ss
           | Some new_max \<Rightarrow>
               if new_min > new_max
               then let ss1 = ss\<lparr>min_input := (min_input ss)(key_prefix \<mapsto> new_max)\<rparr>
                    in ss1\<lparr>slider := (slider ss1)(key_prefix \<mapsto> (new_max, new_max))\<rparr>
               else ss\<lparr>slider := (slider ss)(key_prefix \<mapsto> (new_min, new_max))\<rparr>))"

datatype range_event = Slide real real | TypeMin real | TypeMax real

definition range_update :: "string \<Rightarrow> range_event \<Rightarrow> session \<Rightarrow> py_error + session" where
  \<comment> \<open>one change of a widget: its new value is stored under its key, then its
      \<^verbatim>\<open>on_change\<close> callback runs\<close>
  "range_update col ev ss =
     (case ev of
        Slide lo hi \<Rightarrow> update_slider col (ss\<lparr>slider := (slider ss)(col \<mapsto> (lo, hi))\<rparr>)
      | TypeMin v \<Rightarrow> Inr (update_input col (ss\<lparr>min_input := (min_input ss)(col \<mapsto> v)\<rparr>))
      | TypeMax v \<Rightarrow> Inr (update_input col (ss\<lparr>max_input := (max_input ss)(col \<mapsto> v)\<rparr>)))"

definition rupee :: string where
  \<comment> \<open>the rupee sign, a code point above 255, written as its three UTF-8 bytes\<close>
  "rupee = [char_of (226::nat), char_of (130::nat), char_of (185::nat)]"

definition numeric_filters :: "(string \<times> string) list" where
  "numeric_filters =
     [(''price'', ''Price ('' @ rupee @ '')''), (''carat_weight'', ''Carat Weight''),
      (''weight_ratti'', ''Weight Ratti'')]"

definition st_data_bounds :: "dataframe \<Rightarrow> string \<Rightarrow> py_error + (real \<times> real) option" where
  \<comment> \<open>\<^verbatim>\<open>data_min\<close> and \<^verbatim>\<open>data_max\<close>. With no number in the column both are NaN, which
      is \<open>None\<close>: NaN does not equal NaN, so the bounds stay NaN and the pass goes on.\<close>
  "st_data_bounds df_processed col =
     bind_err (series_min (column_values df_processed col)) (\<lambda>mn.
     bind_err (series_max (column_values df_processed col)) (\<lambda>mx.
       case (mn, mx) of
         (Some a, Some b) \<Rightarrow> Inr (Some (if a = b then 0 else a, if a = b then max 1 b else b))
       | _ \<Rightarrow> Inr None))"

definition st_current_range ::
  "string \<Rightarrow> (real \<times> real) option \<Rightarrow> session \<Rightarrow> (real \<times> real) option" where
  \<comment> \<open>\<^verbatim>\<open>(cur_min, cur_max)\<close> after the clamps, as stored in \<^verbatim>\<open>range_selections\<close>. A key
      that is not set has just been initialised to the bound. The keys of the session hold
      numbers. With NaN bounds \<^verbatim>\<open>max(data_min, ...)\<close> returns its first argument, so both
      ends are NaN, which is \<open>None\<close>.\<close>
  "st_current_range col bounds ss =
     (case bounds of
        None \<Rightarrow> None
      | Some b \<Rightarrow>
          let data_min = fst b; data_max = snd b;
              cur_min0 = (case min_input ss col of Some v \<Rightarrow> v | None \<Rightarrow> data_min);
              cur_max0 = (case max_input ss col of Some v \<Rightarrow> v | None \<Rightarrow> data_max);
              cur_min1 = max data_min (min cur_min0 data_max);
              cur_max = max data_min (min cur_max0 data_max)
          in Some (if cur_min1 > cur_max then cur_max else cur_min1, cur_max))"

record st_ranges =
  widget_bounds :: "(string \<times> (real \<times> real) option) list"
  selections :: "(string \<times> (real \<times> real) option) list"

definition st_range_filter ::
  "dataframe \<Rightarrow> string \<Rightarrow> session
     \<Rightarrow> py_error + ((real \<times> real) option \<times> (real \<times> real) option)" where
  \<comment> \<open>one round of the loop over \<^verbatim>\<open>numeric_filters\<close>: the bounds given to the widgets and
      the pair stored in \<^verbatim>\<open>range_selections\<close>. The keys the round initialises belong to the
      widgets from then on; the session after the round is not part of the result.\<close>
  "st_range_filter df_processed col ss =
     bind_err (st_data_bounds df_processed col) (\<lambda>bounds.
       Inr (bounds, st_current_range col bounds ss))"

fun st_range_filters ::
  "dataframe \<Rightarrow> session \<Rightarrow> (string \<times> string) list \<Rightarrow> st_ranges \<Rightarrow> py_error + st_ranges" where
  "st_range_filters df_processed ss [] acc = Inr acc"
| "st_range_filters df_processed ss ((col, label) # rest) acc =
     (if has_column df_processed col
      then bind_err (st_range_filter df_processed col ss)
             (\<lambda>(b, v). st_range_filters df_processed ss rest
                 \<lparr>widget_bounds = widget_bounds acc @ [(col, b)],
                  selections = selections acc @ [(col, v)]\<rparr>)
      else st_range_filters df_processed ss rest acc)"

subsection \<open>The result table\<close>

definition compare_float ::
  "(real \<Rightarrow> real \<Rightarrow> bool) \<Rightarrow> cell list \<Rightarrow> real option \<Rightarrow> py_error + bool list" where
  \<comment> \<open>a comparison of a column with a float that may be NaN (\<open>None\<close>): against NaN every
      number compares false, and text still raises\<close>
  "compare_float cmp col k =
     (case k of
        Some x \<Rightarrow> compare_number cmp col x
      | None \<Rightarrow> if list_ex is_text col then Inl TypeError else Inr (map (\<lambda>_. False) col))"

fun apply_ranges ::
  "(string \<times> (real \<times> real) option) list \<Rightarrow> dataframe \<Rightarrow> py_error + dataframe" where
  \<comment> \<open>the loop over \<^verbatim>\<open>range_selections.items()\<close>; a selection is a pair of numbers or the
      NaN pair\<close>
  "apply_ranges [] final_df = Inr final_df"
| "apply_ranges ((col, sel) # rest) final_df =
     (if has_column final_df col
      then bind_err (compare_float (\<ge>) (column_values final_df col) (map_option fst sel)) (\<lambda>lo.
           bind_err (compare_float (\<le>) (column_values final_df col) (map_option snd sel)) (\<lambda>hi.
             apply_ranges rest (select_rows final_df (mask_and lo hi))))
      else apply_ranges rest final_df)"

definition chosen :: "(string \<times> real \<times> real) list \<Rightarrow> (string \<times> (real \<times> real) option) list" where
  \<comment> \<open>selections of the first dashboard, which are never NaN\<close>
  "chosen sels = map (\<lambda>(col, v). (col, Some v)) sels"

definition app_sidebar ::
  "pylib \<Rightarrow> (string \<Rightarrow> string list) \<Rightarrow> (string \<Rightarrow> real \<times> real) \<Rightarrow> session \<Rightarrow> dataframe
     \<Rightarrow> py_error + (cascade_state \<times> ranges)" where
  \<comment> \<open>the sidebar of the first dashboard: categorical filters, then range filters\<close>
  "app_sidebar L multiselect number_input ss df_processed =
     (let c = cascade_app L multiselect filter_order_app (start_cascade df_processed)
      in bind_err (app_range_filters L df_processed number_input range_cols (start_ranges ss))
           (\<lambda>r. Inr (c, r)))"

definition app_results :: "cascade_state \<times> ranges \<Rightarrow> py_error + dataframe" where
  "app_results sb = apply_ranges (chosen (range_selections (snd sb))) (current_df (fst sb))"

definition st_sidebar ::
  "pylib \<Rightarrow> (string \<Rightarrow> string list) \<Rightarrow> session \<Rightarrow> dataframe
     \<Rightarrow> py_error + (cascade_state \<times> st_ranges)" where
  "st_sidebar L multiselect ss df_processed =
     (let c = cascade_st L multiselect filter_order_st (start_cascade df_processed)
      in bind_err (st_range_filters df_processed ss numeric_filters
                     \<lparr>widget_bounds = [], selections = []\<rparr>)
           (\<lambda>r. Inr (c, r)))"

definition st_results :: "cascade_state \<times> st_ranges \<Rightarrow> py_error + dataframe option" where
  \<comment> \<open>\<open>None\<close>: no gemstone is selected, a warning is shown and the pass stops\<close>
  "st_results sb =
     (case selected_filters (fst sb) ''gemstone'' of
        None \<Rightarrow> Inr None
      | Some vs \<Rightarrow>
          if vs = [] then Inr None
          else bind_err (apply_ranges (selections (snd sb)) (current_df (fst sb)))
                 (\<lambda>final_df. Inr (Some final_df)))"

text \<open>What the specification says of the bounds and of the result, for comparison.\<close>

definition in_range :: "(real \<times> real) option \<Rightarrow> cell \<Rightarrow> bool" where
  \<comment> \<open>a number within the pair, ends included; nothing is within the NaN pair\<close>
  "in_range sel c =
     (case sel of
        None \<Rightarrow> False
      | Some b \<Rightarrow> (case c of Num x \<Rightarrow> fst b \<le> x \<and> x \<le> snd b | _ \<Rightarrow> False))"

definition in_all_ranges ::
  "string list \<Rightarrow> (string \<times> (real \<times> real) option) list \<Rightarrow> row \<Rightarrow> bool" where
  \<comment> \<open>the row lies within every selected range whose column the table has\<close>
  "in_all_ranges cols sels r =
     list_all (\<lambda>(col, sel). col \<in> set cols \<longrightarrow> in_range sel (r col)) sels"

definition global_min :: "dataframe \<Rightarrow> string \<Rightarrow> real option" where
  "global_min df col =
     (if numbers (column_values df col) = [] then None else Some (Min (set (numbers (column_values df col)))))"

definition global_max :: "dataframe \<Rightarrow> string \<Rightarrow> real option" where
  "global_max df col =
     (if numbers (column_values df col) = [] then None else Some (Max (set (numbers (column_values df col)))))"

definition app_bounds :: "dataframe \<Rightarrow> string \<Rightarrow> real \<times> real" where
  "app_bounds df col =
     (case global_min df col of None \<Rightarrow> 0 | Some x \<Rightarrow> x,
      case global_max df col of None \<Rightarrow> 1 | Some x \<Rightarrow> x)"

definition st_bounds :: "dataframe \<Rightarrow> string \<Rightarrow> (real \<times> real) option" where
  "st_bounds df col =
     (case (global_min df col, global_max df col) of
        (Some a, Some b) \<Rightarrow> Some (if a = b then (0, max 1 b) else (a, b))
      | _ \<Rightarrow> None)"

definition accepted :: "pylib \<Rightarrow> string \<times> real \<times> real \<Rightarrow> bool" where
  \<comment> \<open>the slider accepts the bounds given for a column\<close>
  "accepted L cb = slider_accepts L (fst (snd cb)) (snd (snd cb))"

definition sliders_accept :: "pylib \<Rightarrow> dataframe \<Rightarrow> string list \<Rightarrow> bool" where
  \<comment> \<open>the slider accepts the bounds of every listed column the table has\<close>
  "sliders_accept L df cols =
     list_all (\<lambda>col. accepted L (col, app_bounds df col)) (filter (has_column df) cols)"

definition no_text_in :: "dataframe \<Rightarrow> string list \<Rightarrow> bool" where
  \<comment> \<open>the listed columns hold numbers and missing values only, as after the cleaner\<close>
  "no_text_in df cols = list_all (\<lambda>col. \<not> list_ex is_text (column_values df col)) cols"

definition synced :: "string \<Rightarrow> session \<Rightarrow> bool" where
  \<comment> \<open>the three values of one numeric filter agree and the range is not inverted\<close>
  "synced col ss =
     (case (min_input ss col, max_input ss col, slider ss col) of
        (Some a, Some b, Some v) \<Rightarrow> v = (a, b) \<and> a \<le> b
      | _ \<Rightarrow> False)"

definition slider_after ::
  "string \<Rightarrow> py_error + (session \<times> (real \<times> real) \<times> (real \<times> real)) \<Rightarrow> (real \<times> real) option" where
  \<comment> \<open>the slider value a round of the range loop leaves in the session\<close>
  "slider_after col res = (case res of Inl _ \<Rightarrow> None | Inr x \<Rightarrow> slider (fst x) col)"

definition typed_session :: session where
  \<comment> \<open>a session with the price filter at 900 to 800000\<close>
  "typed_session = new_session\<lparr>slider := [''price'' \<mapsto> (900, 800000)],
                                min_input := [''price'' \<mapsto> 900],
                                max_input := [''price'' \<mapsto> 800000]\<rparr>"

section \<open>Grid pagination\<close>

definition ITEMS_PER_PAGE :: int where
  "ITEMS_PER_PAGE = 48"

definition total_pages :: "int \<Rightarrow> int" where
  "total_pages total_items = max 1 ((total_items + ITEMS_PER_PAGE - 1) div ITEMS_PER_PAGE)"

definition py_slice :: "'a list \<Rightarrow> int \<Rightarrow> int \<Rightarrow> 'a list" where
  \<comment> \<open>\<^verbatim>\<open>xs[a:b]\<close>, also \<^verbatim>\<open>df.iloc[a:b]\<close>: a negative index counts from the end, both are cut to the length\<close>
  "py_slice xs a b =
     (let n = int (length xs);
          lo = (if a < 0 then max (a + n) 0 else min a n);
          hi = (if b < 0 then max (b + n) 0 else min b n)
      in take (nat (hi - lo)) (drop (nat lo) xs))"

datatype click = NoClick | ClickPrevious | ClickNext

record grid_view =
  page_shown :: int
  page_count :: int
  page_rows :: "row list"
  previous_disabled :: bool
  next_disabled :: bool
  session_after :: session

definition grid_pass :: "row list \<Rightarrow> click \<Rightarrow> session \<Rightarrow> grid_view" where
  \<comment> \<open>the grid branch for a result table with the given rows; \<open>click\<close> is the button the user
      pressed to cause this pass, if any. A disabled button cannot be pressed and returns False.\<close>
  "grid_pass final_rows click ss =
     (let ss1 = (if current_page ss = None then ss\<lparr>current_page := Some 1\<rparr> else ss);
          total_items = int (length final_rows);
          pages = total_pages total_items;
          p0 = (case current_page ss1 of Some p \<Rightarrow> p | None \<Rightarrow> 1);
          ss2 = (if p0 > pages then ss1\<lparr>current_page := Some pages\<rparr> else ss1);
          p = (case current_page ss2 of Some p \<Rightarrow> p | None \<Rightarrow> 1);
          start_idx = (p - 1) * ITEMS_PER_PAGE;
          end_idx = start_idx + ITEMS_PER_PAGE;
          paginated = py_slice final_rows start_idx end_idx;
          no_prev = (p = 1);
          no_next = (p = pages);
          ss3 = (if click = ClickPrevious \<and> \<not> no_prev then ss2\<lparr>current_page := Some (p - 1)\<rparr>
                 else if click = ClickNext \<and> \<not> no_next then ss2\<lparr>current_page := Some (p + 1)\<rparr>
                 else ss2)
      in \<lparr>page_shown = p, page_count = pages, page_rows = paginated,
          previous_disabled = no_prev, next_disabled = no_next, session_after = ss3\<rparr>)"

definition apply_filters :: "session \<Rightarrow> session" where
  \<comment> \<open>the button \<^verbatim>\<open>Step 3: Apply Filters\<close> of the second dashboard\<close>
  "apply_filters ss = ss\<lparr>show_results := Some True, current_page := Some 1\<rparr>"

definition on_page :: "int \<Rightarrow> session" where
  "on_page p = new_session\<lparr>show_results := Some True, current_page := Some p\<rparr>"

definition blank_rows :: "nat \<Rightarrow> row list" where
  "blank_rows n = replicate n blank_row"

section \<open>Price display and sorting\<close>













section \<open>The fetcher\<close>

text \<open>
  The network and the CSV parser are outside the repository. Their answers are inputs: what
  \<^verbatim>\<open>requests.get\<close> did (it raised with some text, or it returned a response), and what
  decoding and \<^verbatim>\<open>pd.read_csv\<close> make of the body (a message when they raise). A response is
  its status code, the text of the \<^verbatim>\<open>HTTPError\<close> that \<^verbatim>\<open>raise_for_status\<close> raises for it
  when it raises, and its body.
\<close>

datatype http_reply = NoReply string | Reply nat string string

definition raise_for_status :: "nat \<Rightarrow> string \<Rightarrow> py_error + unit" where
  \<comment> \<open>\<^verbatim>\<open>response.raise_for_status()\<close> raises for the client and server error codes\<close>
  "raise_for_status status http_error =
     (if 400 \<le> status \<and> status < 600 then Inl (RequestException http_error) else Inr ())"

definition fetch_body :: "http_reply \<Rightarrow> string + dataframe \<Rightarrow> py_error + dataframe" where
  \<comment> \<open>the body of the \<^verbatim>\<open>try\<close> in \<^verbatim>\<open>load_data_from_url\<close>\<close>
  "fetch_body reply parsed =
     (case reply of
        NoReply msg \<Rightarrow> Inl (RequestException msg)
      | Reply status http_error body \<Rightarrow>
          bind_err (raise_for_status status http_error) (\<lambda>_.
            case parsed of Inl msg \<Rightarrow> Inl (ParserError msg) | Inr df \<Rightarrow> Inr df))"

definition error_text :: "py_error \<Rightarrow> string" where
  "error_text e =
     (case e of KeyError k \<Rightarrow> k | TypeError \<Rightarrow> ''TypeError'' | AttributeError \<Rightarrow> ''AttributeError''
      | RuntimeError m \<Rightarrow> m | RequestException m \<Rightarrow> m | ParserError m \<Rightarrow> m
      | StreamlitAPIException m \<Rightarrow> m)"

definition load_data_from_url :: "http_reply \<Rightarrow> string + dataframe \<Rightarrow> string list \<times> dataframe" where
  \<comment> \<open>the messages shown with \<^verbatim>\<open>st.error\<close> and the table returned; every exception of the
      body is caught\<close>
  "load_data_from_url reply parsed =
     (case fetch_body reply parsed of
        Inl e \<Rightarrow> ([''Error loading data: '' @ error_text e], empty_frame)
      | Inr df \<Rightarrow> ([], df))"

definition report_fetch :: "http_reply \<Rightarrow> string + dataframe \<Rightarrow> py_error + dataframe" where
  \<comment> \<open>the download block of the report script: nothing is caught\<close>
  "report_fetch reply parsed =
     (case reply of
        NoReply msg \<Rightarrow> Inl (RequestException msg)
      | Reply status http_error body \<Rightarrow>
          if status = 200
          then (case parsed of Inl msg \<Rightarrow> Inl (ParserError msg) | Inr df \<Rightarrow> Inr df)
          else Inl (RuntimeError (''Failed to fetch the CSV file. Status code: '' @ digits_of status)))"

definition is_empty_frame :: "dataframe \<Rightarrow> bool" where
  \<comment> \<open>\<^verbatim>\<open>df.empty\<close>\<close>
  "is_empty_frame df = (columns df = [] \<or> rows df = [])"

definition sample_inputs :: "string \<Rightarrow> real \<times> real" where
  \<comment> \<open>number inputs: price from 1000 to 750000, carat weight from 1 to 4\<close>
  "sample_inputs = (\<lambda>_. (0, 1))(''price'' := (1000, 750000), ''carat_weight'' := (1, 4))"

definition ruby_choice :: "string \<Rightarrow> string list" where
  "ruby_choice = no_choice(''gemstone'' := [''Ruby''])"

definition skus :: "dataframe \<Rightarrow> cell list" where
  "skus df = column_values df ''sku''"

definition tiny_table :: dataframe where
  "tiny_table = \<lparr>columns = [''sku'', ''qty''], rows = [blank_row(''sku'' := Str ''GP1'', ''qty'' := Num 2)]\<rparr>"

definition tiny_csv :: string where
  \<comment> \<open>the text that parses to \<open>tiny_table\<close>\<close>
  "tiny_csv = ''sku,qty\<newline>GP1,2\<newline>''"



definition raised :: "py_error + 'a \<Rightarrow> py_error option" where
  \<comment> \<open>the exception a computation ended with, if any\<close>
  "raised res = (case res of Inl e \<Rightarrow> Some e | Inr _ \<Rightarrow> None)"

definition unavailable_text :: string where
  "unavailable_text = ''503 Server Error: Service Unavailable for url: https://staging.gempundit.com/var/export/report.csv''"

definition not_found_text :: string where
  "not_found_text = ''404 Client Error: Not Found for url: https://staging.gempundit.com/var/export/report.csv''"

definition sample_with_ratti :: dataframe where
  \<comment> \<open>the cleaned sample with a \<^verbatim>\<open>weight_ratti\<close> column in which every cell is missing\<close>
  "sample_with_ratti =
     \<lparr>columns = columns sample_processed @ [''weight_ratti''], rows = rows sample_processed\<rparr>"

definition single_price :: dataframe where
  \<comment> \<open>a cleaned table with one stone, so that the price column has a single value\<close>
  "single_price =
     \<lparr>columns = [''sku'', ''gemstone'', ''shape'', ''product_type'', ''price'', ''carat_weight''],
      rows = [clean_row ''GP100'' ''Ruby'' ''Oval'' 700000 2]\<rparr>"


definition priced_session :: session where
  \<comment> \<open>a session with the price filter at 1000 to 750000\<close>
  "priced_session = new_session\<lparr>slider := [''price'' \<mapsto> (1000, 750000)],
                                 min_input := [''price'' \<mapsto> 1000],
                                 max_input := [''price'' \<mapsto> 750000]\<rparr>"

section \<open>Facts about text\<close>

lemma py_split_nonempty: "py_split sep s \<noteq> []"
  by (induction s) (auto simp: Let_def)

lemma image_filename_prefixed: "startswith (image_filename L c) ''gp''"
  by (simp add: image_filename_def Let_def startswith_def)

lemma startswith_gp_shape: "startswith s ''gp'' \<Longrightarrow> \<exists>t. s = CHR ''g'' # CHR ''p'' # t"
  by (cases s; cases "tl s") (auto simp: startswith_def)

lemma image_filename_text:
  "image_filename L (Str s) =
     (let low = py_lower (last (py_split CHR ''/'' (py_strip s)))
      in if startswith low ''gp'' then low else ''gp'' @ low)"
  by (simp add: image_filename_def py_str_def Let_def)

section \<open>Facts about masks\<close>

lemma select_rows_by_row:
  "select_rows df (map P (rows df)) = \<lparr>columns = columns df, rows = filter P (rows df)\<rparr>"
proof -
  have "map snd (filter fst (zip (map P xs) xs)) = filter P xs" for xs :: "row list"
    by (induction xs) auto
  then show ?thesis by (simp add: select_rows_def)
qed

lemma mask_and_map: "mask_and (map f xs) (map g xs) = map (\<lambda>x. f x \<and> g x) xs"
  by (induction xs) (auto simp: mask_and_def)

lemma compare_number_Inr:
  "compare_number (>) (map f xs) 0 = Inr m \<Longrightarrow> m = map (\<lambda>x. positive (f x)) xs"
  by (auto simp: compare_number_def positive_def split: if_splits)

lemma str_contains_sku:
  "str_contains True pat (map (\<lambda>c. Str (g c)) xs) = Inr (map (\<lambda>c. py_contains (g c) pat) xs)"
  by (cases xs) (auto simp: str_contains_def is_num_def)

lemma str_contains_pendant:
  assumes "str_contains False pat (map (fillna []) xs) = Inr m" and "pat \<noteq> []"
  shows "m = map (\<lambda>c. contains_ci (text_of c) pat) xs"
proof -
  have "(case fillna [] c of Str s \<Rightarrow> contains_ci s pat | _ \<Rightarrow> False) = contains_ci (text_of c) pat" for c
    using assms(2) by (cases c) (auto simp: fillna_def isna_def text_of_def contains_ci_def py_lower_def)
  then show ?thesis using assms(1)
    by (auto simp: str_contains_def split: if_splits)
qed

lemma base_mask_Inr:
  assumes "base_mask L df = Inr m"
  shows "m = map (gemstone_row L) (rows df)"
proof -
  from assms obtain mq mp mpr where
    q: "compare_number (>) (column_values df ''qty'') 0 = Inr mq" and
    p: "str_contains False ''pendant'' (map (fillna '''') (column_values df ''product_type'')) = Inr mp" and
    pr: "compare_number (>) (column_values df ''price'') 0 = Inr mpr" and
    m: "m = mask_and (mask_and (mask_and (mask_and (mask_and
              (equals_text (column_values df ''attribute_set_id'') ''Gemstones'')
              (map (\<lambda>c. py_contains (py_str L c) ''GP'') (column_values df ''sku''))) mq)
              (equals_number (column_values df ''is_in_stock'') 1))
              (mask_not mp)) mpr"
    unfolding base_mask_def bind_err_def lookup_column_def
    by (auto simp: str_contains_sku split: if_splits sum.splits)
  have mq: "mq = map (\<lambda>r. positive (r ''qty'')) (rows df)"
    using compare_number_Inr [of "\<lambda>r. r ''qty''" "rows df"] q by (simp add: column_values_def)
  have mpr: "mpr = map (\<lambda>r. positive (r ''price'')) (rows df)"
    using compare_number_Inr [of "\<lambda>r. r ''price''" "rows df"] pr by (simp add: column_values_def)
  have mp: "mp = map (\<lambda>r. contains_ci (text_of (r ''product_type'')) ''pendant'') (rows df)"
    using str_contains_pendant [OF p] by (simp add: column_values_def)
  show ?thesis
    unfolding m mq mpr mp
    by (simp add: column_values_def equals_text_def equals_number_def mask_not_def mask_and_map
        gemstone_row_def cong: conj_cong)
qed

section \<open>Facts about the cleaner\<close>

lemma numeric_conversions_Inr:
  assumes "numeric_conversions L df = (df', Inr u)"
  shows "columns df' = columns df" and "rows df' = map (coerce_row L) (rows df)"
  using assms
  by (auto simp: numeric_conversions_def lookup_column_def has_column_def assign_def Let_def
      coerce_row_def split: if_splits)

lemma filter_block_Inr:
  assumes "filter_block L df = (df', Inr g)"
  shows "columns df' = columns df" and "rows df' = map (coerce_row L) (rows df)"
    and "columns g = columns df" and "rows g = filter (gemstone_row L) (rows df')"
proof -
  from assms obtain m where n: "numeric_conversions L df = (df', Inr ())"
    and m: "base_mask L df' = Inr m" and g: "g = select_rows df' m"
    by (auto simp: filter_block_def bind_err_def split: prod.splits sum.splits)
  show c: "columns df' = columns df" and "rows df' = map (coerce_row L) (rows df)"
    using numeric_conversions_Inr [OF n] by auto
  show "columns g = columns df" using g c by (simp add: select_rows_def)
  show "rows g = filter (gemstone_row L) (rows df')"
    using base_mask_Inr [OF m] g select_rows_by_row [of df' "gemstone_row L"] by simp
qed

lemma assign_rows: "rows (assign d c f) = map (\<lambda>r. r(c := f r)) (rows d)"
  by (simp add: assign_def)

lemma assign_columns: "has_column d c \<Longrightarrow> columns (assign d c f) = columns d"
  by (simp add: assign_def has_column_def)

lemma coerce_step:
  "columns (if has_column d c then assign d c (\<lambda>r. to_numeric L (r c)) else d) = columns d \<and>
   rows (if has_column d c then assign d c (\<lambda>r. to_numeric L (r c)) else d)
     = map (\<lambda>x. if c \<in> set (columns d) then x(c := to_numeric L (x c)) else x) (rows d)"
  by (simp add: assign_rows assign_columns) (simp add: has_column_def)

lemma coerce_numeric_cols_rows:
  "columns (coerce_numeric_cols L g) = columns g \<and>
   rows (coerce_numeric_cols L g) = map (coerce_numeric_row L (columns g)) (rows g)"
proof -
  have "columns (fold (\<lambda>col d. if has_column d col then assign d col (\<lambda>r. to_numeric L (r col)) else d) cs g)
          = columns g \<and>
        rows (fold (\<lambda>col d. if has_column d col then assign d col (\<lambda>r. to_numeric L (r col)) else d) cs g)
          = map (fold (\<lambda>col x. if col \<in> set (columns g) then x(col := to_numeric L (x col)) else x) cs) (rows g)"
    for cs
  proof (induction cs arbitrary: g)
    case Nil
    show ?case by simp
  next
    case (Cons c cs)
    show ?case
      using Cons.IH [of "if has_column g c then assign g c (\<lambda>r. to_numeric L (r c)) else g"]
        coerce_step [of g c L]
      by (simp del: fun_upd_apply)
  qed
  then show ?thesis
    unfolding coerce_numeric_cols_def coerce_numeric_row_def by (simp add: fun_eq_iff) 
qed

lemma format_url_key_rows:
  "columns (format_url_key L g) = columns g \<and>
   rows (format_url_key L g) = map (format_url_row L (columns g)) (rows g)"
proof (cases "has_column g ''url_key''")
  case True
  then have c: "''url_key'' \<in> set (columns g)" by (simp add: has_column_def)
  show ?thesis using True c
    by (simp add: format_url_key_def Let_def assign_def text_of_def
        format_url_row_def [abs_def] o_def)
next
  case False
  then have c: "''url_key'' \<notin> set (columns g)" by (simp add: has_column_def)
  show ?thesis using False c by (simp add: format_url_key_def format_url_row_def [abs_def])
qed

lemma format_image_rows:
  "columns (format_image L g) = columns g \<and>
   rows (format_image L g) = map (format_image_row L (columns g)) (rows g)"
proof (cases "has_column g ''image''")
  case True
  then have c: "''image'' \<in> set (columns g)" by (simp add: has_column_def)
  show ?thesis using True c
    by (simp add: format_image_def assign_rows assign_columns format_image_row_def [abs_def])
next
  case False
  then have c: "''image'' \<notin> set (columns g)" by (simp add: has_column_def)
  show ?thesis using False c by (simp add: format_image_def format_image_row_def [abs_def])
qed

lemma format_columns_rows:
  "columns (format_columns L g) = columns g \<and>
   rows (format_columns L g) = map (format_row L (columns g)) (rows g)"
  by (simp add: format_columns_def format_image_rows format_url_key_rows coerce_numeric_cols_rows
      format_row_def [abs_def] o_def)

lemma coerce_numeric_row_apply:
  "coerce_numeric_row L cols r c =
     (if c \<in> set numeric_cols \<and> c \<in> set cols then to_numeric L (r c) else r c)"
  by (simp add: coerce_numeric_row_def numeric_cols_def)

lemma format_row_other:
  "c \<noteq> ''url_key'' \<Longrightarrow> c \<noteq> ''image'' \<Longrightarrow> format_row L cols r c = coerce_numeric_row L cols r c"
  by (simp add: format_row_def format_image_row_def format_url_row_def)

lemma format_row_keeps_gemstone:
  assumes "gemstone_row L r"
  shows "gemstone_row L (format_row L cols r)"
proof -
  from assms obtain x where "r ''price'' = Num x"
    by (auto simp: gemstone_row_def positive_def split: cell.splits)
  then have "to_numeric L (r ''price'') = r ''price''" by (simp add: to_numeric_def)
  with assms show ?thesis
    by (simp add: gemstone_row_def format_row_other coerce_numeric_row_apply numeric_cols_def)
qed

lemma process_dataframe_of_filter_block:
  "filter_block L df = (df', Inr g) \<Longrightarrow> process_dataframe L df = (df', Inr (format_columns L g))"
  by (simp add: process_dataframe_def bind_err_def)

lemma to_numeric_no_text: "\<not> is_text (to_numeric L c)"
  by (cases c) (auto simp: to_numeric_def is_text_def split: option.splits)

lemma filter_block_returns:
  assumes cols: "set [''attribute_set_id'', ''sku'', ''qty'', ''is_in_stock'', ''product_type'', ''price'']
                   \<subseteq> set (columns df)"
    and price: "\<not> list_ex is_text (column_values df ''price'')"
    and ptype: "rows df = [] \<or> list_ex (\<lambda>c. \<not> is_num c) (column_values df ''product_type'')"
  shows "\<exists>df' g. filter_block L df = (df', Inr g)"
proof -
  let ?d = "\<lparr>columns = columns df, rows = map (coerce_row L) (rows df)\<rparr>"
  have n: "numeric_conversions L df = (?d, Inr ())"
    using cols
    by (simp add: numeric_conversions_def lookup_column_def has_column_def assign_def Let_def
        coerce_row_def)
  have q: "\<not> list_ex is_text (column_values ?d ''qty'')"
    by (simp add: column_values_def coerce_row_def list_ex_iff to_numeric_no_text)
  have p: "column_values ?d ''price'' = column_values df ''price''"
    by (simp add: column_values_def coerce_row_def)
  have t: "column_values ?d ''product_type'' = column_values df ''product_type''"
    by (simp add: column_values_def coerce_row_def)
  have fn: "is_num (fillna [] c) \<Longrightarrow> is_num c" for c
    by (cases c) (auto simp: fillna_def isna_def is_num_def)
  have s: "\<not> (map (fillna []) (column_values df ''product_type'') \<noteq> []
             \<and> list_all is_num (map (fillna []) (column_values df ''product_type'')))"
  proof (cases "rows df = []")
    case True
    then show ?thesis by (simp add: column_values_def)
  next
    case False
    with ptype obtain c where "c \<in> set (column_values df ''product_type'')" "\<not> is_num c"
      by (auto simp: list_ex_iff)
    then have "\<not> list_all is_num (map (fillna []) (column_values df ''product_type''))"
      using fn by (auto simp: list_all_iff)
    then show ?thesis by simp
  qed
  obtain mq where mq: "compare_number (>) (column_values ?d ''qty'') 0 = Inr mq"
    using q by (simp add: compare_number_def)
  obtain mpr where mpr: "compare_number (>) (column_values ?d ''price'') 0 = Inr mpr"
    using price unfolding p by (simp add: compare_number_def)
  obtain mp where
    mp: "str_contains False ''pendant'' (map (fillna []) (column_values ?d ''product_type'')) = Inr mp"
    using s unfolding t by (simp add: str_contains_def)
  have "\<exists>m. base_mask L ?d = Inr m"
    using cols
    by (simp add: base_mask_def bind_err_def lookup_column_def has_column_def
        str_contains_sku mq mpr mp)
  then show ?thesis
    using n by (auto simp: filter_block_def bind_err_def)
qed

lemma cleaned_columns_hold_no_text:
  assumes "r \<in> set (rows (format_columns L g))" and "c \<in> set numeric_cols" and "has_column g c"
  shows "\<not> is_text (r c)"
proof -
  from assms(1) obtain x where r: "r = format_row L (columns g) x"
    using format_columns_rows [of L g] by auto
  have "c \<noteq> ''url_key''" "c \<noteq> ''image''"
    using assms(2) by (auto simp: numeric_cols_def)
  then have "r c = to_numeric L (x c)"
    using assms(2,3) by (simp add: r format_row_other coerce_numeric_row_apply has_column_def)
  then show ?thesis by (simp add: to_numeric_no_text)
qed

lemma result_shape: "\<not> isl (snd x) \<Longrightarrow> x = (fst x, Inr (projr (snd x)))"
  by (cases x; cases "snd x") auto

text \<open>
  C1. When the filter block returns a table, that table is the coerced input restricted to the
  rows that meet the six conditions (category, SKU, quantity, stock flag, no pendant, price), in
  their order: every kept row meets all six and every row meeting all six is kept. The table
  \<^verbatim>\<open>process_dataframe\<close> returns is that one reformatted row by row, and its rows still meet
  all six.
\<close>

theorem cleaner_keeps_exactly_gemstone_rows:
  assumes "filter_block L df = (df', Inr g)"
  shows "rows g = filter (gemstone_row L) (map (coerce_row L) (rows df))
       \<and> (\<forall>r \<in> set (rows g). gemstone_row L r)
       \<and> (\<forall>r \<in> set (rows df). gemstone_row L (coerce_row L r) \<longrightarrow> coerce_row L r \<in> set (rows g))
       \<and> process_dataframe L df = (df', Inr (format_columns L g))
       \<and> rows (format_columns L g) = map (format_row L (columns df)) (rows g)
       \<and> (\<forall>r \<in> set (rows (format_columns L g)). gemstone_row L r)"
proof -
  note fb = filter_block_Inr [OF assms]
  have g: "rows g = filter (gemstone_row L) (map (coerce_row L) (rows df))"
    using fb(2,4) by simp
  have fmt: "rows (format_columns L g) = map (format_row L (columns df)) (rows g)"
    using format_columns_rows [of L g] fb(3) by simp
  have "\<forall>r \<in> set (rows (format_columns L g)). gemstone_row L r"
    unfolding fmt using g by (auto intro: format_row_keeps_gemstone)
  then show ?thesis
    using g fmt process_dataframe_of_filter_block [OF assms] by auto
qed

theorem cleaner_keeps_exactly_gemstone_rows_witness:
  "\<not> isl (snd (filter_block sample_lib sample_raw))
   \<and> map (\<lambda>r. r ''sku'') (rows (projr (snd (filter_block sample_lib sample_raw))))
       = [Str ''GP100'', Str ''GP400'']
   \<and> list_all (gemstone_row sample_lib) (rows (projr (snd (filter_block sample_lib sample_raw))))
   \<and> list_all (gemstone_row sample_lib)
        (rows (format_columns sample_lib (projr (snd (filter_block sample_lib sample_raw)))))"
proof -
  have ok: "\<not> isl (snd (filter_block sample_lib sample_raw))"
    by code_simp
  have skus: "map (\<lambda>r. r ''sku'') (rows (projr (snd (filter_block sample_lib sample_raw))))
       = [Str ''GP100'', Str ''GP400'']"
    by code_simp
  show ?thesis
    unfolding list_all_iff
    using cleaner_keeps_exactly_gemstone_rows [OF result_shape [OF ok]] ok skus by blast
qed

section \<open>What the cleaner does to the table it is given\<close>

lemma to_numeric_idem: "to_numeric L (to_numeric L c) = to_numeric L c"
  by (cases c) (auto simp: to_numeric_def split: option.splits)

lemma coerce_row_idem: "coerce_row L (coerce_row L r) = coerce_row L r"
  by (simp add: coerce_row_def to_numeric_idem fun_eq_iff)

lemma numeric_conversions_frame:
  "columns (fst (numeric_conversions L df)) = columns df
   \<and> length (rows (fst (numeric_conversions L df))) = length (rows df)
   \<and> (\<forall>i c. i < length (rows df) \<longrightarrow> c \<noteq> ''qty'' \<longrightarrow> c \<noteq> ''is_in_stock''
         \<longrightarrow> (rows (fst (numeric_conversions L df)) ! i) c = (rows df ! i) c)"
  by (auto simp: numeric_conversions_def lookup_column_def has_column_def assign_def Let_def)

lemma numeric_conversions_ok_iff:
  "snd (numeric_conversions L df) = Inr () \<longleftrightarrow> has_column df ''qty'' \<and> has_column df ''is_in_stock''"
  by (auto simp: numeric_conversions_def lookup_column_def has_column_def assign_def Let_def)

lemma numeric_conversions_again:
  assumes "numeric_conversions L df = (df', Inr ())"
  shows "numeric_conversions L df' = (df', Inr ())"
proof -
  have h: "has_column df ''qty''" "has_column df ''is_in_stock''"
    using numeric_conversions_ok_iff [of L df] assms by auto
  note n = numeric_conversions_Inr [OF assms]
  have h': "has_column df' ''qty''" "has_column df' ''is_in_stock''"
    using h n(1) by (auto simp: has_column_def)
  have "numeric_conversions L df' = (\<lparr>columns = columns df', rows = map (coerce_row L) (rows df')\<rparr>, Inr ())"
    using h' by (simp add: numeric_conversions_def lookup_column_def has_column_def assign_def
        Let_def coerce_row_def)
  moreover have "map (coerce_row L) (rows df') = rows df'"
    unfolding n(2) by (simp add: coerce_row_idem)
  ultimately show ?thesis by simp
qed

lemma filter_block_fst: "fst (filter_block L df) = fst (numeric_conversions L df)"
  by (cases "numeric_conversions L df") (simp add: filter_block_def)

lemma process_dataframe_fst: "fst (process_dataframe L df) = fst (numeric_conversions L df)"
  using filter_block_fst [of L df] by (cases "filter_block L df") (simp add: process_dataframe_def)

lemma process_dataframe_again:
  assumes "process_dataframe L df = (df', Inr out)"
  shows "process_dataframe L df' = (df', Inr out)"
proof -
  from assms obtain m where n: "numeric_conversions L df = (df', Inr ())"
    and m: "base_mask L df' = Inr m" and out: "out = format_columns L (select_rows df' m)"
    by (auto simp: process_dataframe_def filter_block_def bind_err_def split: prod.splits sum.splits)
  show ?thesis
    using numeric_conversions_again [OF n] m out
    by (simp add: process_dataframe_def filter_block_def bind_err_def)
qed

text \<open>
  C9, as the code has it. The derivation is a function of the table it is given. It writes into
  that table: afterwards the table has the same columns and the same number of rows, every cell
  outside the columns \<^verbatim>\<open>qty\<close> and \<^verbatim>\<open>is_in_stock\<close> is as before, and when the derivation
  returns a table those two columns hold their numeric coercions; running the derivation again
  on the table so changed gives the same result and changes nothing further.
\<close>

theorem process_dataframe_touches_only_stock_columns:
  "columns (fst (process_dataframe L df)) = columns df
   \<and> length (rows (fst (process_dataframe L df))) = length (rows df)
   \<and> (\<forall>i c. i < length (rows df) \<longrightarrow> c \<noteq> ''qty'' \<longrightarrow> c \<noteq> ''is_in_stock''
         \<longrightarrow> (rows (fst (process_dataframe L df)) ! i) c = (rows df ! i) c)
   \<and> (\<forall>df' out. process_dataframe L df = (df', Inr out)
         \<longrightarrow> rows df' = map (coerce_row L) (rows df)
           \<and> process_dataframe L df' = (df', Inr out))"
proof -
  have "rows df' = map (coerce_row L) (rows df)" if "process_dataframe L df = (df', Inr out)" for df' out
  proof -
    from that obtain g where "filter_block L df = (df', Inr g)"
      by (auto simp: process_dataframe_def bind_err_def split: prod.splits sum.splits)
    then show ?thesis by (rule filter_block_Inr(2))
  qed
  then show ?thesis
    using numeric_conversions_frame [of L df] process_dataframe_again [of L df]
    unfolding process_dataframe_fst by blast
qed

theorem process_dataframe_touches_only_stock_columns_witness:
  "\<not> isl (snd (process_dataframe sample_lib sample_raw))
   \<and> column_values (fst (process_dataframe sample_lib sample_raw)) ''price''
       = column_values sample_raw ''price''
   \<and> rows (fst (process_dataframe sample_lib sample_raw)) = map (coerce_row sample_lib) (rows sample_raw)
   \<and> process_dataframe sample_lib (fst (process_dataframe sample_lib sample_raw))
       = process_dataframe sample_lib sample_raw"
proof -
  have ok: "\<not> isl (snd (process_dataframe sample_lib sample_raw))"
    by code_simp
  have price: "column_values (fst (process_dataframe sample_lib sample_raw)) ''price''
       = column_values sample_raw ''price''"
    by code_simp
  show ?thesis
    using process_dataframe_touches_only_stock_columns [of sample_lib sample_raw]
      result_shape [OF ok] ok price by metis
qed

theorem process_dataframe_mutates_input_counterexample:
  "column_values sample_raw ''qty'' = [Str ''3'', Str ''5'', Str ''few'', Str ''1'']
   \<and> column_values (fst (process_dataframe sample_lib sample_raw)) ''qty''
       = [Num 3, Num 5, NaN, Num 1]"
  by code_simp

section \<open>Image URL\<close>

text \<open>
  C10. For every input that is neither missing nor the empty text, the normalised file name
  starts with the brand prefix, so it has at least two characters, and the URL returned is the
  one with the two-level directory, which is always \<^verbatim>\<open>g/p\<close>: the fallback without the
  directory is never taken.
\<close>

theorem magento_url_always_two_level:
  assumes "img_name \<noteq> NaN" and "img_name \<noteq> Str ''''"
  shows "get_magento_url L img_name = cdn_base @ ''/g/p/'' @ image_filename L img_name
       \<and> startswith (image_filename L img_name) ''gp''
       \<and> length (image_filename L img_name) \<ge> 2"
proof -
  obtain t where t: "image_filename L img_name = CHR ''g'' # CHR ''p'' # t"
    using startswith_gp_shape [OF image_filename_prefixed] by blast
  show ?thesis using assms
    by (simp add: get_magento_url_def isna_def t startswith_def)
qed

theorem magento_url_always_two_level_witness:
  "Str ''a/b/Ruby 7.JPG'' \<noteq> NaN \<and> Str ''a/b/Ruby 7.JPG'' \<noteq> Str ''''
   \<and> get_magento_url sample_lib (Str ''a/b/Ruby 7.JPG'') = cdn_base @ ''/g/p/gpruby 7.jpg''"
proof -
  have e: "image_filename sample_lib (Str ''a/b/Ruby 7.JPG'') = ''gpruby 7.jpg''"
    by code_simp
  show ?thesis
    using magento_url_always_two_level [of "Str ''a/b/Ruby 7.JPG''" sample_lib] by (simp add: e)
qed

text \<open>
  C2, as the code has it. A missing or empty reference gives the empty text. Any other text is
  first stripped of surrounding white space; the four steps of the specification (last path
  segment, lower case, brand prefix when absent, two-level directory when there are at least two
  characters) are then applied to what is left. The three examples of the specification hold.
\<close>

theorem magento_url_steps_after_strip:
  "get_magento_url L NaN = ''''
   \<and> get_magento_url L (Str s) = (if s = '''' then '''' else spec_image_steps (py_strip s))
   \<and> get_magento_url L (Str ''g/p/GPX1.JPG'') = cdn_base @ ''/g/p/gpx1.jpg''
   \<and> get_magento_url L (Str ''123.jpg'') = cdn_base @ ''/g/p/gp123.jpg''"
proof -
  have "get_magento_url L (Str ''g/p/GPX1.JPG'') = cdn_base @ ''/g/p/gpx1.jpg''"
    by code_simp
  moreover have "get_magento_url L (Str ''123.jpg'') = cdn_base @ ''/g/p/gp123.jpg''"
    by code_simp
  ultimately show ?thesis
    by (simp add: get_magento_url_def isna_def image_filename_text spec_image_steps_def Let_def)
qed

theorem magento_url_steps_after_strip_witness:
  "get_magento_url sample_lib (Str ''  x/GP1.jpg '') = spec_image_steps ''x/GP1.jpg''
   \<and> spec_image_steps ''x/GP1.jpg'' = cdn_base @ ''/g/p/gp1.jpg''"
proof -
  have a: "py_strip ''  x/GP1.jpg '' = ''x/GP1.jpg''" by code_simp
  have b: "spec_image_steps ''x/GP1.jpg'' = cdn_base @ ''/g/p/gp1.jpg''" by code_simp
  show ?thesis
    using magento_url_steps_after_strip [of sample_lib "''  x/GP1.jpg ''"] by (simp add: a b)
qed

theorem magento_url_strips_first_counterexample:
  "get_magento_url sample_lib (Str ''GP1.jpg '')
     = cdn_base @ ''/g/p/gp1.jpg''
   \<and> spec_image_url (Some ''GP1.jpg '')
     = cdn_base @ ''/g/p/gp1.jpg ''
   \<and> get_magento_url sample_lib (Str ''GP1.jpg '')
     \<noteq> spec_image_url (Some ''GP1.jpg '')"
  by code_simp

section \<open>Facts about narrowing\<close>

lemma narrow_app_rows:
  "narrow_app df c vs = \<lparr>columns = columns df, rows = filter (\<lambda>r. isin (r c) vs) (rows df)\<rparr>"
  using select_rows_by_row [of df "\<lambda>r. isin (r c) vs"]
  by (simp add: narrow_app_def column_values_def o_def)

lemma mask_or_map: "mask_or (map f xs) (map g xs) = map (\<lambda>x. f x \<or> g x) xs"
  by (induction xs) (auto simp: mask_or_def)

lemma mask_step_map:
  "mask_step (map g xs) v (map f xs) = map (\<lambda>x. f x \<or> hit v (g x)) xs"
  by (simp add: mask_step_def equals_text_def mask_or_map hit_def)

lemma fold_mask_step:
  "fold (mask_step (map g xs)) vs (map f xs) = map (\<lambda>x. f x \<or> (\<exists>v \<in> set vs. hit v (g x))) xs"
proof (induction vs arbitrary: f)
  case Nil
  show ?case by simp
next
  case (Cons v vs)
  show ?case
    unfolding fold_simps mask_step_map Cons.IH by (rule map_cong) auto
qed

lemma narrow_st_rows:
  "narrow_st df c vs =
     \<lparr>columns = columns df, rows = filter (\<lambda>r. \<exists>v \<in> set vs. hit v (r c)) (rows df)\<rparr>"
proof -
  have "replicate (length (rows df)) False = map (\<lambda>_. False) (rows df)"
    by (simp add: map_replicate_const)
  then have "fold (mask_step (column_values df c)) vs (replicate (length (rows df)) False)
      = map (\<lambda>r. \<exists>v \<in> set vs. hit v (r c)) (rows df)"
    using fold_mask_step [of "\<lambda>r. r c" "rows df" vs "\<lambda>_. False"]
    by (simp add: column_values_def)
  then show ?thesis
    using select_rows_by_row [of df "\<lambda>r. \<exists>v \<in> set vs. hit v (r c)"]
    by (simp add: narrow_st_def)
qed

lemma options_app_set:
  "set (options_app L df c) = py_str L ` {x \<in> (\<lambda>r. r c) ` set (rows df). \<not> isna x}"
  by (auto simp: options_app_def column_values_def)

lemma options_st_set:
  "set (options_st L df c) = (\<lambda>r. py_str L (fillna ''None'' (r c))) ` set (rows df)"
  by (auto simp: options_st_def column_values_def)

lemma offers_within_snoc:
  "offers_within a b \<Longrightarrow> set o1 \<subseteq> set o2 \<Longrightarrow> offers_within (a @ [(k, o1)]) (b @ [(k, o2)])"
  by (simp add: offers_within_def list_all2_appendI)

section \<open>A narrower table and fewer selections give no more options\<close>

lemma cascade_app_monotone:
  assumes "columns (current_df s) = columns (current_df s')"
    and "set (rows (current_df s)) \<subseteq> set (rows (current_df s'))"
    and "offers_within (offered s) (offered s')"
    and "\<And>k. ms' k = [] \<or> ms' k = ms k"
  shows "offers_within (offered (cascade_app L ms fs s)) (offered (cascade_app L ms' fs s'))"
  using assms(1-3)
proof (induction fs arbitrary: s s')
  case Nil
  then show ?case by simp
next
  case (Cons f fs)
  obtain c lbl where f: "f = (c, lbl)" by (cases f)
  show ?case
  proof (cases "has_column (current_df s) c")
    case False
    then have "\<not> has_column (current_df s') c" using Cons.prems(1) by (simp add: has_column_def)
    with False show ?thesis using Cons.IH [OF Cons.prems] by (simp add: f)
  next
    case True
    then have True': "has_column (current_df s') c" using Cons.prems(1) by (simp add: has_column_def)
    let ?o = "options_app L (current_df s) c" and ?o' = "options_app L (current_df s') c"
    have opts: "set ?o \<subseteq> set ?o'"
      unfolding options_app_set using Cons.prems(2) by auto
    let ?t = "if ms c \<noteq> []
              then s\<lparr>offered := offered s @ [(c, ?o)],
                     current_df := narrow_app (current_df s) c (ms c),
                     selected_filters := (selected_filters s)(c \<mapsto> ms c)\<rparr>
              else s\<lparr>offered := offered s @ [(c, ?o)]\<rparr>"
    let ?t' = "if ms' c \<noteq> []
              then s'\<lparr>offered := offered s' @ [(c, ?o')],
                     current_df := narrow_app (current_df s') c (ms' c),
                     selected_filters := (selected_filters s')(c \<mapsto> ms' c)\<rparr>
              else s'\<lparr>offered := offered s' @ [(c, ?o')]\<rparr>"
    have 1: "columns (current_df ?t) = columns (current_df ?t')"
      using Cons.prems(1) by (simp add: narrow_app_rows)
    have 2: "set (rows (current_df ?t)) \<subseteq> set (rows (current_df ?t'))"
      using Cons.prems(2) assms(4) [of c] by (auto simp: narrow_app_rows)
    have 3: "offers_within (offered ?t) (offered ?t')"
      using offers_within_snoc [OF Cons.prems(3) opts] by simp
    have "cascade_app L ms (f # fs) s = cascade_app L ms fs ?t"
      using True by (simp add: f Let_def)
    moreover have "cascade_app L ms' (f # fs) s' = cascade_app L ms' fs ?t'"
      using True' by (simp add: f Let_def)
    ultimately show ?thesis using Cons.IH [OF 1 2 3] by simp
  qed
qed

lemma cascade_st_monotone:
  assumes "columns (current_df s) = columns (current_df s')"
    and "set (rows (current_df s)) \<subseteq> set (rows (current_df s'))"
    and "offers_within (offered s) (offered s')"
    and "\<And>k. ms' k = [] \<or> ms' k = ms k"
  shows "offers_within (offered (cascade_st L ms fs s)) (offered (cascade_st L ms' fs s'))"
  using assms(1-3)
proof (induction fs arbitrary: s s')
  case Nil
  then show ?case by simp
next
  case (Cons f fs)
  obtain c lbl where f: "f = (c, lbl)" by (cases f)
  show ?case
  proof (cases "has_column (current_df s) c")
    case False
    then have "\<not> has_column (current_df s') c" using Cons.prems(1) by (simp add: has_column_def)
    with False show ?thesis using Cons.IH [OF Cons.prems] by (simp add: f)
  next
    case True
    then have True': "has_column (current_df s') c" using Cons.prems(1) by (simp add: has_column_def)
    let ?o = "options_st L (current_df s) c" and ?o' = "options_st L (current_df s') c"
    have opts: "set ?o \<subseteq> set ?o'"
      unfolding options_st_set using Cons.prems(2) by auto
    let ?t = "if ms c \<noteq> []
              then s\<lparr>offered := offered s @ [(c, ?o)],
                     current_df := narrow_st (current_df s) c (ms c),
                     selected_filters := (selected_filters s)(c \<mapsto> ms c)\<rparr>
              else s\<lparr>offered := offered s @ [(c, ?o)]\<rparr>"
    let ?t' = "if ms' c \<noteq> []
              then s'\<lparr>offered := offered s' @ [(c, ?o')],
                     current_df := narrow_st (current_df s') c (ms' c),
                     selected_filters := (selected_filters s')(c \<mapsto> ms' c)\<rparr>
              else s'\<lparr>offered := offered s' @ [(c, ?o')]\<rparr>"
    have 1: "columns (current_df ?t) = columns (current_df ?t')"
      using Cons.prems(1) by (simp add: narrow_st_rows)
    have 2: "set (rows (current_df ?t)) \<subseteq> set (rows (current_df ?t'))"
      using Cons.prems(2) assms(4) [of c] by (auto simp: narrow_st_rows)
    have 3: "offers_within (offered ?t) (offered ?t')"
      using offers_within_snoc [OF Cons.prems(3) opts] by simp
    have "cascade_st L ms (f # fs) s = cascade_st L ms fs ?t"
      using True by (simp add: f Let_def)
    moreover have "cascade_st L ms' (f # fs) s' = cascade_st L ms' fs ?t'"
      using True' by (simp add: f Let_def)
    ultimately show ?thesis using Cons.IH [OF 1 2 3] by simp
  qed
qed

text \<open>
  C3. In both dashboards, take one pass over the filters with the values the multiselects
  return, and a second pass in which the multiselect of one column returns nothing and all
  others return what they did. Both passes offer options for the same filters in the same order,
  and for every filter the options of the first pass are among those of the second: making a
  selection never adds an option to any filter.
\<close>

theorem cascade_selection_never_expands_options:
  "offers_within
     (offered (cascade_app L ms filter_order_app (start_cascade df)))
     (offered (cascade_app L (ms(c := [])) filter_order_app (start_cascade df)))
   \<and> offers_within
     (offered (cascade_st L ms filter_order_st (start_cascade df)))
     (offered (cascade_st L (ms(c := [])) filter_order_st (start_cascade df)))"
proof -
  have "offers_within (offered (start_cascade df)) (offered (start_cascade df))"
    by (simp add: start_cascade_def offers_within_def)
  then show ?thesis
    using cascade_app_monotone [of "start_cascade df" "start_cascade df" "ms(c := [])" ms L filter_order_app]
      cascade_st_monotone [of "start_cascade df" "start_cascade df" "ms(c := [])" ms L filter_order_st]
    by simp
qed

theorem cascade_selection_never_expands_options_witness:
  "offered (cascade_app sample_lib (no_choice(''gemstone'' := [''Emerald''])) filter_order_app
              (start_cascade sample_processed))
     = [(''gemstone'', [''Emerald'', ''Ruby'', ''Sapphire'']), (''shape'', [''Oval'']),
        (''product_type'', [''Loose Stone''])]
   \<and> offered (cascade_app sample_lib no_choice filter_order_app (start_cascade sample_processed))
     = [(''gemstone'', [''Emerald'', ''Ruby'', ''Sapphire'']), (''shape'', [''Oval'', ''Round'']),
        (''product_type'', [''Loose Stone''])]
   \<and> offers_within
       (offered (cascade_app sample_lib (no_choice(''gemstone'' := [''Emerald''])) filter_order_app
              (start_cascade sample_processed)))
       (offered (cascade_app sample_lib no_choice filter_order_app (start_cascade sample_processed)))"
proof -
  have a: "offered (cascade_app sample_lib (no_choice(''gemstone'' := [''Emerald''])) filter_order_app
              (start_cascade sample_processed))
     = [(''gemstone'', [''Emerald'', ''Ruby'', ''Sapphire'']), (''shape'', [''Oval'']),
        (''product_type'', [''Loose Stone''])]"
    by code_simp
  have b: "offered (cascade_app sample_lib no_choice filter_order_app (start_cascade sample_processed))
     = [(''gemstone'', [''Emerald'', ''Ruby'', ''Sapphire'']), (''shape'', [''Oval'', ''Round'']),
        (''product_type'', [''Loose Stone''])]"
    by code_simp
  have c: "(no_choice(''gemstone'' := [''Emerald'']))(''gemstone'' := []) = no_choice"
    by (simp add: no_choice_def fun_eq_iff)
  show ?thesis
    using cascade_selection_never_expands_options
      [of sample_lib "no_choice(''gemstone'' := [''Emerald''])" sample_processed "''gemstone''"]
    unfolding c a b by simp
qed

section \<open>Numeric range synchronisation\<close>

lemma update_input_synced:
  assumes "min_input ss col = Some a" and "max_input ss col = Some b"
  shows "synced col (update_input col ss)
       \<and> min_input (update_input col ss) col = Some (min a b)
       \<and> max_input (update_input col ss) col = Some b"
  using assms by (auto simp: update_input_def synced_def Let_def min_def)

lemma update_slider_synced:
  assumes "slider ss col = Some (lo, hi)" and "lo \<le> hi"
  shows "\<exists>ss'. update_slider col ss = Inr ss' \<and> synced col ss' \<and> slider ss' col = Some (lo, hi)"
  using assms by (auto simp: update_slider_def synced_def Let_def)

lemma app_sync_slider_value:
  "slider (fst (app_sync_slider col b (val_min, val_max) ss)) col
     = Some (snd (app_sync_slider col b (val_min, val_max) ss))
   \<and> snd (app_sync_slider col b (val_min, val_max) ss)
     = (if (val_min, val_max) = (case slider ss col of Some c \<Rightarrow> c | None \<Rightarrow> b)
        then (val_min, val_max) else (min val_min val_max, val_max))"
  by (cases "case slider ss col of Some c \<Rightarrow> c | None \<Rightarrow> b")
     (auto simp: app_sync_slider_def Let_def min_def)

lemma app_range_filter_slider:
  assumes "app_range_filter L df col (val_min, val_max) ss = Inr (ss', b, v)"
  shows "slider ss' col = Some v
       \<and> v = (if (val_min, val_max) = (case slider ss col of Some c \<Rightarrow> c | None \<Rightarrow> b)
              then (val_min, val_max) else (min val_min val_max, val_max))"
proof -
  from assms have "ss' = fst (app_sync_slider col b (val_min, val_max) ss)"
    and "v = snd (app_sync_slider col b (val_min, val_max) ss)"
    by (auto simp: app_range_filter_def bind_err_def split: sum.splits if_splits)
  then show ?thesis using app_sync_slider_value [of col b val_min val_max ss] by simp
qed

text \<open>
  C4, as the code has it. In the second dashboard, after one change of a widget of a numeric
  filter the three values agree and the range is not inverted: a slider change to an ordered pair
  is copied to both inputs; a change of the minimum input while the maximum is set, or of the
  maximum input while the minimum is set, is copied to the slider with the minimum clamped to the
  maximum, so a maximum typed below the minimum becomes the minimum too. In the first dashboard
  a round of the range loop leaves the slider as it was when the inputs equal it, and otherwise
  sets it to the pair of the inputs with the minimum replaced by the maximum when the inputs are
  inverted; the inputs themselves are not written.
\<close>

theorem range_filter_sync:
  "(lo \<le> hi \<longrightarrow>
      (\<exists>ss'. range_update col (Slide lo hi) ss = Inr ss' \<and> synced col ss'
             \<and> slider ss' col = Some (lo, hi)))
   \<and> (max_input ss col = Some b \<longrightarrow>
      (\<exists>ss'. range_update col (TypeMin x) ss = Inr ss' \<and> synced col ss'
             \<and> min_input ss' col = Some (min x b) \<and> max_input ss' col = Some b))
   \<and> (min_input ss col = Some a \<longrightarrow>
      (\<exists>ss'. range_update col (TypeMax y) ss = Inr ss' \<and> synced col ss'
             \<and> min_input ss' col = Some (min a y) \<and> max_input ss' col = Some y))
   \<and> (app_range_filter L df col (val_min, val_max) ss = Inr (ss', bnd, v) \<longrightarrow>
        slider ss' col = Some v
        \<and> v = (if (val_min, val_max) = (case slider ss col of Some c \<Rightarrow> c | None \<Rightarrow> bnd)
               then (val_min, val_max) else (min val_min val_max, val_max)))"
proof -
  have s: "lo \<le> hi \<longrightarrow>
      (\<exists>ss'. range_update col (Slide lo hi) ss = Inr ss' \<and> synced col ss'
             \<and> slider ss' col = Some (lo, hi))"
    using update_slider_synced [of "ss\<lparr>slider := (slider ss)(col \<mapsto> (lo, hi))\<rparr>" col lo hi]
    by (simp add: range_update_def)
  have mn: "max_input ss col = Some b \<longrightarrow>
      (\<exists>ss'. range_update col (TypeMin x) ss = Inr ss' \<and> synced col ss'
             \<and> min_input ss' col = Some (min x b) \<and> max_input ss' col = Some b)"
    using update_input_synced [of "ss\<lparr>min_input := (min_input ss)(col \<mapsto> x)\<rparr>" col x b]
    by (simp add: range_update_def)
  have mx: "min_input ss col = Some a \<longrightarrow>
      (\<exists>ss'. range_update col (TypeMax y) ss = Inr ss' \<and> synced col ss'
             \<and> min_input ss' col = Some (min a y) \<and> max_input ss' col = Some y)"
    using update_input_synced [of "ss\<lparr>max_input := (max_input ss)(col \<mapsto> y)\<rparr>" col a y]
    by (simp add: range_update_def)
  show ?thesis
    using s mn mx app_range_filter_slider [of L df col val_min val_max ss ss' bnd v] by blast
qed

lemma synced_values:
  "synced col ss \<Longrightarrow> min_input ss col = Some a \<Longrightarrow> max_input ss col = Some b
     \<Longrightarrow> slider ss col = Some (a, b) \<and> a \<le> b"
  by (auto simp: synced_def split: option.splits)

theorem range_filter_sync_witness:
  "max_input typed_session ''price'' = Some 800000
   \<and> min_input typed_session ''price'' = Some 900
   \<and> min_input (projr (range_update ''price'' (TypeMax 500) typed_session)) ''price'' = Some 500
   \<and> max_input (projr (range_update ''price'' (TypeMax 500) typed_session)) ''price'' = Some 500
   \<and> slider (projr (range_update ''price'' (TypeMax 500) typed_session)) ''price'' = Some (500, 500)
   \<and> synced ''price'' (projr (range_update ''price'' (Slide 1000 2000) typed_session))
   \<and> slider_after ''price'' (app_range_filter sample_lib sample_processed ''price'' (5000, 1000) typed_session)
       = Some (1000, 1000)"
proof -
  have a: "min_input typed_session ''price'' = Some 900"
    by (simp add: typed_session_def new_session_def)
  have b: "max_input typed_session ''price'' = Some 800000"
    by (simp add: typed_session_def new_session_def)
  have ok: "\<not> isl (app_range_filter sample_lib sample_processed ''price'' (5000, 1000) typed_session)"
    by code_simp
  then obtain ss' bnd v where
    r: "app_range_filter sample_lib sample_processed ''price'' (5000, 1000) typed_session = Inr (ss', bnd, v)"
    by (cases "app_range_filter sample_lib sample_processed ''price'' (5000, 1000) typed_session") auto
  note t = range_filter_sync [where lo = 1000 and hi = 2000 and col = "''price''"
      and ss = typed_session and b = 800000 and x = 0 and a = 900 and y = 500
      and L = sample_lib and df = sample_processed and val_min = 5000 and val_max = 1000
      and ss' = ss' and bnd = bnd and v = v]
  from t a obtain s1 where
    s1: "range_update ''price'' (TypeMax 500) typed_session = Inr s1" "synced ''price'' s1"
      "min_input s1 ''price'' = Some 500" "max_input s1 ''price'' = Some 500"
    by auto
  from t obtain s2 where
    s2: "range_update ''price'' (Slide 1000 2000) typed_session = Inr s2" "synced ''price'' s2"
    by auto
  have c: "slider typed_session ''price'' = Some (900, 800000)"
    by (simp add: typed_session_def new_session_def)
  have v: "slider ss' ''price'' = Some (1000, 1000)"
    using t r c by auto
  show ?thesis
    using a b s1 s2 v r synced_values [OF s1(2) s1(3) s1(4)] by (simp add: slider_after_def)
qed

theorem range_filter_sync_counterexample:
  "slider_after ''price'' (app_range_filter sample_lib sample_processed ''price'' (5000, 1000) typed_session)
     = Some (1000, 1000)
   \<and> (1000, 1000) \<noteq> ((5000::real), (1000::real))
   \<and> \<not> (5000::real) \<le> 1000"
  by code_simp

section \<open>Bounds of the range widgets\<close>

lemma fold_min_Min: "fold min xs x = Min (set (x # xs))"
  by (rule Min.set_eq_fold [symmetric])

lemma fold_max_Max: "fold max xs x = Max (set (x # xs))"
  by (rule Max.set_eq_fold [symmetric])

lemma series_min_Inr:
  "series_min col = Inr m \<Longrightarrow>
     m = (if numbers col = [] then None else Some (Min (set (numbers col))))"
  by (auto simp: series_min_def fold_min_Min split: if_splits list.splits)

lemma series_max_Inr:
  "series_max col = Inr m \<Longrightarrow>
     m = (if numbers col = [] then None else Some (Max (set (numbers col))))"
  by (auto simp: series_max_def fold_max_Max split: if_splits list.splits)

lemma app_range_filter_bounds:
  assumes "app_range_filter L df col inputs ss = Inr (ss', b, v)"
  shows "b = app_bounds df col \<and> slider_accepts L (fst b) (snd b)"
proof -
  from assms have g: "app_global_bounds df col = Inr b" and acc: "slider_accepts L (fst b) (snd b)"
    by (auto simp: app_range_filter_def bind_err_def split: sum.splits if_splits)
  then obtain mn mx where mn: "series_min (column_values df col) = Inr mn"
    and mx: "series_max (column_values df col) = Inr mx"
    and b: "b = (case mn of None \<Rightarrow> 0 | Some x \<Rightarrow> x, case mx of None \<Rightarrow> 1 | Some x \<Rightarrow> x)"
    by (auto simp: app_global_bounds_def bind_err_def split: sum.splits)
  have "b = app_bounds df col"
    unfolding b app_bounds_def global_min_def global_max_def
    using series_min_Inr [OF mn] series_max_Inr [OF mx] by simp
  then show ?thesis using acc by simp
qed

lemma app_range_filters_bounds:
  "app_range_filters L df ni cols acc = Inr r \<Longrightarrow>
     slider_bounds r = slider_bounds acc @ map (\<lambda>col. (col, app_bounds df col)) (filter (has_column df) cols)"
proof (induction cols arbitrary: acc)
  case Nil
  then show ?case by simp
next
  case (Cons col cols)
  show ?case
  proof (cases "has_column df col")
    case False
    then show ?thesis using Cons by simp
  next
    case True
    with Cons.prems obtain ss b v where
      one: "app_range_filter L df col (ni col) (state acc) = Inr (ss, b, v)" and
      rest: "app_range_filters L df ni cols
               \<lparr>state = ss, slider_bounds = slider_bounds acc @ [(col, b)],
                range_selections = range_selections acc @ [(col, v)]\<rparr> = Inr r"
      by (auto simp: bind_err_def split: sum.splits)
    show ?thesis
      using Cons.IH [OF rest] app_range_filter_bounds [OF one] True by simp
  qed
qed

lemma app_range_filters_accepted:
  "app_range_filters L df ni cols acc = Inr r \<Longrightarrow> list_all (accepted L) (slider_bounds acc) \<Longrightarrow>
     list_all (accepted L) (slider_bounds r)"
proof (induction cols arbitrary: acc)
  case Nil
  then show ?case by simp
next
  case (Cons col cols)
  show ?case
  proof (cases "has_column df col")
    case False
    then show ?thesis using Cons by simp
  next
    case True
    with Cons.prems obtain ss b v where
      one: "app_range_filter L df col (ni col) (state acc) = Inr (ss, b, v)" and
      rest: "app_range_filters L df ni cols
               \<lparr>state = ss, slider_bounds = slider_bounds acc @ [(col, b)],
                range_selections = range_selections acc @ [(col, v)]\<rparr> = Inr r"
      by (auto simp: bind_err_def split: sum.splits)
    have "list_all (accepted L) (slider_bounds acc @ [(col, b)])"
      using app_range_filter_bounds [OF one] Cons.prems(2) by (auto simp: accepted_def list_all_iff)
    then show ?thesis
      using Cons.IH [OF rest] by simp
  qed
qed

lemma st_range_filter_bounds:
  assumes "st_range_filter df col ss = Inr (b, v)"
  shows "b = st_bounds df col"
proof -
  from assms have g: "st_data_bounds df col = Inr b"
    by (auto simp: st_range_filter_def bind_err_def split: sum.splits)
  then obtain mn mx where mn: "series_min (column_values df col) = Inr mn"
    and mx: "series_max (column_values df col) = Inr mx"
    and b: "Inr b = (case (mn, mx) of
               (Some x, Some y) \<Rightarrow> Inr (Some (if x = y then 0 else x, if x = y then max 1 y else y))
             | _ \<Rightarrow> (Inr None :: py_error + (real \<times> real) option))"
    by (auto simp: st_data_bounds_def bind_err_def split: sum.splits)
  have "global_min df col = mn" "global_max df col = mx"
    using series_min_Inr [OF mn] series_max_Inr [OF mx]
    by (auto simp: global_min_def global_max_def)
  then show ?thesis
    using b unfolding st_bounds_def by (auto split: option.splits)
qed

lemma st_range_filters_bounds:
  "st_range_filters df ss fs acc = Inr r \<Longrightarrow>
     widget_bounds r = widget_bounds acc @ map (\<lambda>col. (col, st_bounds df col)) (filter (has_column df) (map fst fs))"
proof (induction fs arbitrary: acc)
  case Nil
  then show ?case by simp
next
  case (Cons f fs)
  obtain col lbl where f: "f = (col, lbl)" by (cases f)
  show ?case
  proof (cases "has_column df col")
    case False
    then show ?thesis using Cons by (simp add: f)
  next
    case True
    with Cons.prems obtain b v where
      one: "st_range_filter df col ss = Inr (b, v)" and
      rest: "st_range_filters df ss fs
               \<lparr>widget_bounds = widget_bounds acc @ [(col, b)],
                selections = selections acc @ [(col, v)]\<rparr> = Inr r"
      by (auto simp: f bind_err_def split: sum.splits)
    show ?thesis
      using Cons.IH [OF rest] st_range_filter_bounds [OF one] True by (simp add: f)
  qed
qed

lemma st_range_filters_selections:
  "st_range_filters df ss fs acc = Inr r \<Longrightarrow>
     selections r = selections acc @ map (\<lambda>col. (col, st_current_range col (st_bounds df col) ss))
                                         (filter (has_column df) (map fst fs))"
proof (induction fs arbitrary: acc)
  case Nil
  then show ?case by simp
next
  case (Cons f fs)
  obtain col lbl where f: "f = (col, lbl)" by (cases f)
  show ?case
  proof (cases "has_column df col")
    case False
    then show ?thesis using Cons by (simp add: f)
  next
    case True
    with Cons.prems obtain b v where
      one: "st_range_filter df col ss = Inr (b, v)" and
      rest: "st_range_filters df ss fs
               \<lparr>widget_bounds = widget_bounds acc @ [(col, b)],
                selections = selections acc @ [(col, v)]\<rparr> = Inr r"
      by (auto simp: f bind_err_def split: sum.splits)
    from one have v: "v = st_current_range col b ss"
      by (auto simp: st_range_filter_def bind_err_def split: sum.splits)
    show ?thesis
      using Cons.IH [OF rest] st_range_filter_bounds [OF one] True v by (simp add: f)
  qed
qed

section \<open>The result table\<close>

lemma compare_float_rows:
  "compare_float cmp (map f xs) k = Inr m \<Longrightarrow>
     m = map (\<lambda>x. case k of None \<Rightarrow> False
                    | Some y \<Rightarrow> (case f x of Num r \<Rightarrow> cmp r y | _ \<Rightarrow> False)) xs"
  by (auto simp: compare_float_def compare_number_def split: if_splits option.splits)

lemma range_step:
  assumes "compare_float (\<ge>) (column_values d col) (map_option fst sel) = Inr a"
    and "compare_float (\<le>) (column_values d col) (map_option snd sel) = Inr b"
  shows "select_rows d (mask_and a b)
           = \<lparr>columns = columns d, rows = filter (\<lambda>r. in_range sel (r col)) (rows d)\<rparr>"
proof -
  have a: "a = map (\<lambda>r. case map_option fst sel of None \<Rightarrow> False
                     | Some y \<Rightarrow> (case r col of Num x \<Rightarrow> x \<ge> y | _ \<Rightarrow> False)) (rows d)"
    using compare_float_rows [of "(\<ge>)" "\<lambda>r. r col" "rows d" "map_option fst sel" a] assms(1)
    by (simp add: column_values_def)
  have b: "b = map (\<lambda>r. case map_option snd sel of None \<Rightarrow> False
                     | Some y \<Rightarrow> (case r col of Num x \<Rightarrow> x \<le> y | _ \<Rightarrow> False)) (rows d)"
    using compare_float_rows [of "(\<le>)" "\<lambda>r. r col" "rows d" "map_option snd sel" b] assms(2)
    by (simp add: column_values_def)
  have "(\<lambda>r. (case map_option fst sel of None \<Rightarrow> False
                | Some y \<Rightarrow> (case r col of Num x \<Rightarrow> x \<ge> y | _ \<Rightarrow> False))
           \<and> (case map_option snd sel of None \<Rightarrow> False
                | Some y \<Rightarrow> (case r col of Num x \<Rightarrow> x \<le> y | _ \<Rightarrow> False)))
          = (\<lambda>r. in_range sel (r col))"
    by (auto simp: in_range_def fun_eq_iff split: cell.splits option.splits)
  then show ?thesis
    unfolding a b mask_and_map
    using select_rows_by_row [of d "\<lambda>r. in_range sel (r col)"] by simp
qed

lemma apply_ranges_Inr:
  "apply_ranges sels d = Inr f \<Longrightarrow>
     columns f = columns d \<and> rows f = filter (in_all_ranges (columns d) sels) (rows d)"
proof (induction sels arbitrary: d)
  case Nil
  then show ?case by (simp add: in_all_ranges_def)
next
  case (Cons s sels)
  obtain col sel where s: "s = (col, sel)" by (cases s)
  show ?case
  proof (cases "has_column d col")
    case False
    then have "in_all_ranges (columns d) (s # sels) = in_all_ranges (columns d) sels"
      by (simp add: in_all_ranges_def s has_column_def fun_eq_iff)
    then show ?thesis using Cons False by (simp add: s)
  next
    case True
    with Cons.prems obtain a b where
      a: "compare_float (\<ge>) (column_values d col) (map_option fst sel) = Inr a" and
      b: "compare_float (\<le>) (column_values d col) (map_option snd sel) = Inr b" and
      rest: "apply_ranges sels (select_rows d (mask_and a b)) = Inr f"
      by (auto simp: s bind_err_def split: sum.splits)
    have "in_all_ranges (columns d) (s # sels)
            = (\<lambda>r. in_range sel (r col) \<and> in_all_ranges (columns d) sels r)"
      using True by (simp add: in_all_ranges_def s has_column_def fun_eq_iff)
    then show ?thesis
      using Cons.IH [OF rest] range_step [OF a b] by (simp add: conj_commute)
  qed
qed

section \<open>The range loops and the result return on a cleaned table\<close>

lemma compare_float_returns:
  "\<not> list_ex is_text col \<Longrightarrow> \<exists>m. compare_float cmp col k = Inr m"
  by (simp add: compare_float_def compare_number_def split: option.splits)

lemma no_text_filter:
  "\<not> list_ex is_text (map f xs) \<Longrightarrow> \<not> list_ex is_text (map f (filter P xs))"
  by (auto simp: list_ex_iff)

lemma apply_ranges_returns:
  "no_text_in d (map fst sels) \<Longrightarrow> \<exists>f. apply_ranges sels d = Inr f"
proof (induction sels arbitrary: d)
  case Nil
  then show ?case by simp
next
  case (Cons s sels)
  obtain col sel where s: "s = (col, sel)" by (cases s)
  from Cons.prems have nt: "\<not> list_ex is_text (column_values d col)"
    and others: "no_text_in d (map fst sels)"
    by (simp_all add: no_text_in_def s)
  show ?case
  proof (cases "has_column d col")
    case False
    then show ?thesis using Cons.IH [OF others] by (simp add: s)
  next
    case True
    obtain a where a: "compare_float (\<ge>) (column_values d col) (map_option fst sel) = Inr a"
      using compare_float_returns [OF nt] by blast
    obtain b where b: "compare_float (\<le>) (column_values d col) (map_option snd sel) = Inr b"
      using compare_float_returns [OF nt] by blast
    have "no_text_in (select_rows d (mask_and a b)) (map fst sels)"
      using others unfolding range_step [OF a b] no_text_in_def column_values_def
      by (auto simp: list_all_iff list_ex_iff)
    from Cons.IH [OF this] show ?thesis
      using True a b by (simp add: s bind_err_def)
  qed
qed

lemma st_range_filters_returns:
  "no_text_in df (map fst fs) \<Longrightarrow> \<exists>r. st_range_filters df ss fs acc = Inr r"
proof (induction fs arbitrary: acc)
  case Nil
  then show ?case by simp
next
  case (Cons f fs)
  obtain col lbl where f: "f = (col, lbl)" by (cases f)
  from Cons.prems have nt: "\<not> list_ex is_text (column_values df col)"
    and others: "no_text_in df (map fst fs)"
    by (simp_all add: no_text_in_def f)
  from nt have "\<exists>b. st_data_bounds df col = Inr b"
    by (auto simp: st_data_bounds_def series_min_def series_max_def bind_err_def
          split: list.splits option.splits)
  then obtain b v where one: "st_range_filter df col ss = Inr (b, v)"
    by (auto simp: st_range_filter_def bind_err_def)
  show ?case
    using Cons.IH [OF others] one by (simp add: f bind_err_def)
qed

lemma app_range_filters_returns:
  "no_text_in df cols \<Longrightarrow>
   list_all (\<lambda>col. slider_accepts L (fst (app_bounds df col)) (snd (app_bounds df col)))
     (filter (has_column df) cols) \<Longrightarrow>
   \<exists>r. app_range_filters L df ni cols acc = Inr r"
proof (induction cols arbitrary: acc)
  case Nil
  then show ?case by simp
next
  case (Cons col cols)
  from Cons.prems have nt: "\<not> list_ex is_text (column_values df col)"
    and others: "no_text_in df cols"
    by (simp_all add: no_text_in_def)
  show ?case
  proof (cases "has_column df col")
    case False
    then show ?thesis using Cons.IH [OF others] Cons.prems(2) by simp
  next
    case True
    from nt obtain bnd where g: "app_global_bounds df col = Inr bnd"
      by (auto simp: app_global_bounds_def series_min_def series_max_def bind_err_def)
    then obtain mn mx where mn: "series_min (column_values df col) = Inr mn"
      and mx: "series_max (column_values df col) = Inr mx"
      and b: "bnd = (case mn of None \<Rightarrow> 0 | Some x \<Rightarrow> x, case mx of None \<Rightarrow> 1 | Some x \<Rightarrow> x)"
      by (auto simp: app_global_bounds_def bind_err_def split: sum.splits)
    have "bnd = app_bounds df col"
      unfolding b app_bounds_def global_min_def global_max_def
      using series_min_Inr [OF mn] series_max_Inr [OF mx] by simp
    with Cons.prems(2) True have "slider_accepts L (fst bnd) (snd bnd)" by simp
    with g obtain res where one: "app_range_filter L df col (ni col) (state acc) = Inr res"
      by (simp add: app_range_filter_def bind_err_def)
    obtain s b v where res: "res = (s, b, v)" by (cases res)
    have "list_all (\<lambda>col. slider_accepts L (fst (app_bounds df col)) (snd (app_bounds df col)))
            (filter (has_column df) cols)"
      using Cons.prems(2) True by simp
    from Cons.IH [OF others this] show ?thesis
      using True one by (simp add: bind_err_def res)
  qed
qed


lemma app_sidebar_returns:
  assumes "no_text_in df range_cols" and "sliders_accept L df range_cols"
  shows "\<exists>c r. app_sidebar L ms ni ss df = Inr (c, r)"
proof -
  have "list_all (\<lambda>col. slider_accepts L (fst (app_bounds df col)) (snd (app_bounds df col)))
          (filter (has_column df) range_cols)"
    using assms(2) by (simp add: sliders_accept_def accepted_def)
  from app_range_filters_returns [OF assms(1) this, of ni "start_ranges ss"]
  show ?thesis by (auto simp: app_sidebar_def bind_err_def Let_def)
qed

lemma st_sidebar_returns:
  assumes "no_text_in df (map fst numeric_filters)"
  shows "\<exists>c r. st_sidebar L ms ss df = Inr (c, r)"
  using st_range_filters_returns [OF assms, of ss "\<lparr>widget_bounds = [], selections = []\<rparr>"]
  by (auto simp: st_sidebar_def bind_err_def Let_def)

text \<open>
  C7. In both dashboards, whatever the multiselects return, the bounds handed to the range
  widgets of a column are the minimum and maximum of that column over the whole cleaned table
  (with the defaults of each dashboard), not over the table narrowed by the categorical filters;
  and the result table consists of the rows of the narrowed table, in order, that lie within
  every selected range, both ends included. In the second dashboard a column with no number has
  NaN bounds and a NaN selection, within which no row lies. On a table whose range columns hold
  no text the sidebar of the second dashboard always returns, the sidebar of the first returns
  when the slider accepts the bounds of every column and only then, and the range selection
  always returns.
\<close>

theorem range_bounds_global_and_result_is_intersection:
  "(app_sidebar L ms ni ss df = Inr (c, r) \<longrightarrow>
      c = cascade_app L ms filter_order_app (start_cascade df)
      \<and> slider_bounds r = map (\<lambda>col. (col, app_bounds df col)) (filter (has_column df) range_cols)
      \<and> sliders_accept L df range_cols
      \<and> (\<forall>final. app_results (c, r) = Inr final \<longrightarrow>
            columns final = columns (current_df c)
            \<and> rows final = filter (in_all_ranges (columns (current_df c)) (chosen (range_selections r)))
                             (rows (current_df c))))
   \<and> (no_text_in df range_cols \<and> sliders_accept L df range_cols \<longrightarrow>
        (\<exists>c r. app_sidebar L ms ni ss df = Inr (c, r)))
   \<and> (st_sidebar L ms ss df = Inr (c', r') \<longrightarrow>
      c' = cascade_st L ms filter_order_st (start_cascade df)
      \<and> widget_bounds r' = map (\<lambda>col. (col, st_bounds df col))
                             (filter (has_column df) (map fst numeric_filters))
      \<and> selections r' = map (\<lambda>col. (col, st_current_range col (st_bounds df col) ss))
                           (filter (has_column df) (map fst numeric_filters))
      \<and> (\<forall>final. st_results (c', r') = Inr (Some final) \<longrightarrow>
            columns final = columns (current_df c')
            \<and> rows final = filter (in_all_ranges (columns (current_df c')) (selections r'))
                             (rows (current_df c'))))
   \<and> (no_text_in df (map fst numeric_filters) \<longrightarrow> (\<exists>c' r'. st_sidebar L ms ss df = Inr (c', r')))
   \<and> (no_text_in d (map fst sels) \<longrightarrow> (\<exists>final. apply_ranges sels d = Inr final))"
proof -
  have app: "c = cascade_app L ms filter_order_app (start_cascade df)
      \<and> slider_bounds r = map (\<lambda>col. (col, app_bounds df col)) (filter (has_column df) range_cols)
      \<and> sliders_accept L df range_cols"
    if "app_sidebar L ms ni ss df = Inr (c, r)"
  proof -
    from that have f: "app_range_filters L df ni range_cols (start_ranges ss) = Inr r"
      and c: "c = cascade_app L ms filter_order_app (start_cascade df)"
      by (auto simp: app_sidebar_def bind_err_def Let_def split: sum.splits)
    have b: "slider_bounds r = map (\<lambda>col. (col, app_bounds df col)) (filter (has_column df) range_cols)"
      using app_range_filters_bounds [OF f] by (simp add: start_ranges_def)
    have "list_all (accepted L) (slider_bounds r)"
      using app_range_filters_accepted [OF f] by (simp add: start_ranges_def)
    then have "sliders_accept L df range_cols"
      unfolding b sliders_accept_def by (simp add: list_all_iff)
    then show ?thesis using b c by simp
  qed
  have st: "c' = cascade_st L ms filter_order_st (start_cascade df)
      \<and> widget_bounds r' = map (\<lambda>col. (col, st_bounds df col))
                             (filter (has_column df) (map fst numeric_filters))
      \<and> selections r' = map (\<lambda>col. (col, st_current_range col (st_bounds df col) ss))
                           (filter (has_column df) (map fst numeric_filters))"
    if "st_sidebar L ms ss df = Inr (c', r')"
  proof -
    from that have f: "st_range_filters df ss numeric_filters \<lparr>widget_bounds = [], selections = []\<rparr> = Inr r'"
      and "c' = cascade_st L ms filter_order_st (start_cascade df)"
      by (auto simp: st_sidebar_def bind_err_def Let_def split: sum.splits)
    then show ?thesis
      using st_range_filters_bounds [OF f] st_range_filters_selections [OF f] by simp
  qed
  have res: "columns final = columns (current_df c)
      \<and> rows final = filter (in_all_ranges (columns (current_df c)) (chosen (range_selections r)))
                           (rows (current_df c))"
    if "app_results (c, r) = Inr final" for final
    using that apply_ranges_Inr [of "chosen (range_selections r)" "current_df c" final]
    by (simp add: app_results_def)
  have res': "columns final = columns (current_df c')
      \<and> rows final = filter (in_all_ranges (columns (current_df c')) (selections r'))
                           (rows (current_df c'))"
    if "st_results (c', r') = Inr (Some final)" for final
  proof -
    from that have "apply_ranges (selections r') (current_df c') = Inr final"
      by (auto simp: st_results_def bind_err_def split: option.splits if_splits sum.splits)
    then show ?thesis using apply_ranges_Inr by blast
  qed
  have ar: "no_text_in df range_cols \<and> sliders_accept L df range_cols \<longrightarrow>
        (\<exists>c r. app_sidebar L ms ni ss df = Inr (c, r))"
    using app_sidebar_returns by blast
  have sr: "no_text_in df (map fst numeric_filters) \<longrightarrow> (\<exists>c' r'. st_sidebar L ms ss df = Inr (c', r'))"
    using st_sidebar_returns by blast
  have rr: "no_text_in d (map fst sels) \<longrightarrow> (\<exists>final. apply_ranges sels d = Inr final)"
    using apply_ranges_returns by blast
  show ?thesis using app st res res' ar sr rr by blast
qed

lemma sum_shape: "\<not> isl x \<Longrightarrow> x = Inr (fst (projr x), snd (projr x))"
  by (cases x) auto

theorem range_bounds_global_and_result_is_intersection_witness:
  "\<not> isl (app_sidebar sample_lib ruby_choice sample_inputs new_session sample_processed)
   \<and> slider_bounds (snd (projr (app_sidebar sample_lib ruby_choice sample_inputs new_session sample_processed)))
       = [(''carat_weight'', 1, 4), (''price'', 900, 800000)]
   \<and> range_selections (snd (projr (app_sidebar sample_lib ruby_choice sample_inputs new_session sample_processed)))
       = [(''carat_weight'', 1, 4), (''price'', 1000, 750000)]
   \<and> skus (current_df (fst (projr (app_sidebar sample_lib ruby_choice sample_inputs new_session sample_processed))))
       = [Str ''GP100'', Str ''GP101'']
   \<and> skus (projr (app_results (projr (app_sidebar sample_lib ruby_choice sample_inputs new_session sample_processed))))
       = [Str ''GP100'']
   \<and> isl (app_sidebar sample_lib ruby_choice sample_inputs new_session single_price)
   \<and> \<not> isl (st_sidebar sample_lib ruby_choice priced_session sample_with_ratti)
   \<and> widget_bounds (snd (projr (st_sidebar sample_lib ruby_choice priced_session sample_with_ratti)))
       = [(''price'', Some (900, 800000)), (''carat_weight'', Some (1, 4)), (''weight_ratti'', None)]
   \<and> selections (snd (projr (st_sidebar sample_lib ruby_choice priced_session sample_with_ratti)))
       = [(''price'', Some (1000, 750000)), (''carat_weight'', Some (1, 4)), (''weight_ratti'', None)]
   \<and> rows (the (projr (st_results (projr (st_sidebar sample_lib ruby_choice priced_session sample_with_ratti)))))
       = []
   \<and> skus (the (projr (st_results (projr (st_sidebar sample_lib ruby_choice priced_session sample_processed)))))
       = [Str ''GP100'']
   \<and> widget_bounds (snd (projr (st_sidebar sample_lib ruby_choice priced_session single_price)))
       = [(''price'', Some (0, 700000)), (''carat_weight'', Some (0, 2))]"
proof -
  let ?a = "app_sidebar sample_lib ruby_choice sample_inputs new_session sample_processed"
  let ?s = "st_sidebar sample_lib ruby_choice priced_session sample_with_ratti"
  have nt: "no_text_in sample_with_ratti (map fst numeric_filters)" by code_simp
  have nr: "no_text_in sample_processed range_cols" by code_simp
  have sa: "sliders_accept sample_lib sample_processed range_cols" by code_simp
  note t = range_bounds_global_and_result_is_intersection
    [where L = sample_lib and ms = ruby_choice and ni = sample_inputs and ss = new_session
       and df = sample_processed and c = "fst (projr ?a)" and r = "snd (projr ?a)"]
  note u = range_bounds_global_and_result_is_intersection
    [where L = sample_lib and ms = ruby_choice and ss = priced_session
       and df = sample_with_ratti and c' = "fst (projr ?s)" and r' = "snd (projr ?s)"]
  have "\<exists>c r. ?a = Inr (c, r)" using t nr sa by blast
  then have a: "\<not> isl ?a" by auto
  have "\<exists>c r. ?s = Inr (c, r)" using u nt by blast
  then have s: "\<not> isl ?s" by auto
  have ab: "map (\<lambda>col. (col, app_bounds sample_processed col)) (filter (has_column sample_processed) range_cols)
       = [(''carat_weight'', 1, 4), (''price'', 900, 800000)]"
    by code_simp
  have sb: "map (\<lambda>col. (col, st_bounds sample_with_ratti col))
              (filter (has_column sample_with_ratti) (map fst numeric_filters))
       = [(''price'', Some (900, 800000)), (''carat_weight'', Some (1, 4)), (''weight_ratti'', None)]"
    by code_simp
  have sc: "map (\<lambda>col. (col, st_current_range col (st_bounds sample_with_ratti col) priced_session))
              (filter (has_column sample_with_ratti) (map fst numeric_filters))
       = [(''price'', Some (1000, 750000)), (''carat_weight'', Some (1, 4)), (''weight_ratti'', None)]"
    by code_simp
  have k0: "range_selections (snd (projr ?a)) = [(''carat_weight'', 1, 4), (''price'', 1000, 750000)]"
    by code_simp
  have k1: "skus (current_df (fst (projr ?a))) = [Str ''GP100'', Str ''GP101'']"
    by code_simp
  have k2: "skus (projr (app_results (projr ?a))) = [Str ''GP100'']"
    by code_simp
  have k3: "isl (app_sidebar sample_lib ruby_choice sample_inputs new_session single_price)"
    by code_simp
  have k4: "rows (the (projr (st_results (projr ?s)))) = []"
    by code_simp
  have k5: "skus (the (projr (st_results (projr (st_sidebar sample_lib ruby_choice priced_session sample_processed)))))
       = [Str ''GP100'']"
    by code_simp
  have k6: "widget_bounds (snd (projr (st_sidebar sample_lib ruby_choice priced_session single_price)))
       = [(''price'', Some (0, 700000)), (''carat_weight'', Some (0, 2))]"
    by code_simp
  have b1: "slider_bounds (snd (projr ?a)) = [(''carat_weight'', 1, 4), (''price'', 900, 800000)]"
    using t sum_shape [OF a] unfolding ab by blast
  have b2: "widget_bounds (snd (projr ?s))
       = [(''price'', Some (900, 800000)), (''carat_weight'', Some (1, 4)), (''weight_ratti'', None)]"
    using u sum_shape [OF s] unfolding sb by blast
  have b3: "selections (snd (projr ?s))
       = [(''price'', Some (1000, 750000)), (''carat_weight'', Some (1, 4)), (''weight_ratti'', None)]"
    using u sum_shape [OF s] unfolding sc by blast
  show ?thesis
    using a s b1 b2 b3 k0 k1 k2 k3 k4 k5 k6 by simp
qed

section \<open>Grid pagination\<close>

lemma total_pages_ceiling: "total_pages (int n) = max 1 \<lceil>real n / 48\<rceil>"
proof -
  define q where "q = (int n + 47) div 48"
  define r where "r = (int n + 47) mod 48"
  have e: "int n + 47 = 48 * q + r" and r: "0 \<le> r" "r < 48"
    by (simp_all add: q_def r_def)
  have e': "real n = 48 * real_of_int q + real_of_int r - 47"
  proof -
    have "real_of_int (int n + 47) = real_of_int (48 * q + r)" using e by simp
    then show ?thesis by simp
  qed
  have r': "0 \<le> real_of_int r" "real_of_int r \<le> 47"
    using r by simp_all
  have "\<lceil>real n / 48\<rceil> = q"
  proof (rule ceiling_unique)
    show "real_of_int q - 1 < real n / 48" using e' r' by simp
    show "real n / 48 \<le> real_of_int q" using e' r' by simp
  qed
  then show ?thesis by (simp add: total_pages_def ITEMS_PER_PAGE_def q_def)
qed

lemma total_pages_pos: "1 \<le> total_pages k"
  by (simp add: total_pages_def)

lemma grid_pass_page:
  "page_count (grid_pass rs click ss) = total_pages (int (length rs))
   \<and> page_shown (grid_pass rs click ss)
       = (case current_page ss of None \<Rightarrow> 1
          | Some p \<Rightarrow> if p > total_pages (int (length rs)) then total_pages (int (length rs)) else p)
   \<and> previous_disabled (grid_pass rs click ss) = (page_shown (grid_pass rs click ss) = 1)
   \<and> next_disabled (grid_pass rs click ss)
       = (page_shown (grid_pass rs click ss) = page_count (grid_pass rs click ss))"
  using total_pages_pos [of "int (length rs)"]
  by (cases "current_page ss") (auto simp: grid_pass_def Let_def)

lemma grid_pass_after:
  "current_page (session_after (grid_pass rs click ss))
     = Some (let p = page_shown (grid_pass rs click ss)
             in if click = ClickPrevious \<and> p \<noteq> 1 then p - 1
                else if click = ClickNext \<and> p \<noteq> page_count (grid_pass rs click ss) then p + 1
                else p)"
  using total_pages_pos [of "int (length rs)"]
  by (cases "current_page ss") (auto simp: grid_pass_def Let_def)

lemma grid_pass_disabled_noop:
  "(click = ClickNext \<and> next_disabled (grid_pass rs click ss))
     \<or> (click = ClickPrevious \<and> previous_disabled (grid_pass rs click ss))
   \<Longrightarrow> session_after (grid_pass rs click ss) = session_after (grid_pass rs NoClick ss)"
  by (cases "current_page ss") (auto simp: grid_pass_def Let_def)

lemma py_slice_window:
  assumes "0 \<le> a" and "0 \<le> w"
  shows "py_slice xs a (a + w) = take (nat w) (drop (nat a) xs)"
proof -
  show ?thesis
  proof (cases "a \<le> int (length xs)")
    case False
    then show ?thesis using assms by (simp add: py_slice_def Let_def min_def)
  next
    case a: True
    show ?thesis
    proof (cases "a + w \<le> int (length xs)")
      case True
      then show ?thesis using assms a by (simp add: py_slice_def Let_def min_def)
    next
      case False
      then have "length (drop (nat a) xs) \<le> nat w" using assms a by simp
      then have "take (nat w) (drop (nat a) xs) = drop (nat a) xs" by simp
      moreover have "py_slice xs a (a + w) = take (nat (int (length xs) - a)) (drop (nat a) xs)"
        using assms a False by (simp add: py_slice_def Let_def min_def)
      moreover have "take (nat (int (length xs) - a)) (drop (nat a) xs) = drop (nat a) xs"
        using assms a by simp
      ultimately show ?thesis by simp
    qed
  qed
qed

lemma grid_pass_rows:
  "page_rows (grid_pass rs click ss)
     = py_slice rs ((page_shown (grid_pass rs click ss) - 1) * 48)
         ((page_shown (grid_pass rs click ss) - 1) * 48 + 48)"
  by (cases "current_page ss") (auto simp: grid_pass_def Let_def ITEMS_PER_PAGE_def)

text \<open>
  C5, as the code has it. The page count is the larger of 1 and the ceiling of the number of
  results over 48; for 100 results it is 3. In a pass of the grid view the page shown is the
  stored page cut down to the page count, and page 1 when none is stored. The page stored after
  the pass is the page shown, less one when Previous was pressed off page 1, plus one when Next
  was pressed off the last page. If the stored page was at least 1, the page shown and the page
  stored afterwards lie between 1 and the page count, and the rows shown are the 48 rows of that
  page. Next on the last page and Previous on page 1 are disabled and change nothing. The Apply
  Filters button sets the page to 1.
\<close>

theorem pagination_bounds_and_buttons:
  "total_pages (int n) = max 1 \<lceil>real n / 48\<rceil>
   \<and> total_pages 100 = 3
   \<and> page_count (grid_pass rs click ss) = total_pages (int (length rs))
   \<and> page_shown (grid_pass rs click ss)
       = (case current_page ss of None \<Rightarrow> 1 | Some p \<Rightarrow> min p (total_pages (int (length rs))))
   \<and> current_page (session_after (grid_pass rs click ss))
       = Some (if click = ClickPrevious \<and> page_shown (grid_pass rs click ss) \<noteq> 1
               then page_shown (grid_pass rs click ss) - 1
               else if click = ClickNext
                       \<and> page_shown (grid_pass rs click ss) \<noteq> page_count (grid_pass rs click ss)
               then page_shown (grid_pass rs click ss) + 1
               else page_shown (grid_pass rs click ss))
   \<and> ((\<forall>p. current_page ss = Some p \<longrightarrow> 1 \<le> p) \<longrightarrow>
        1 \<le> page_shown (grid_pass rs click ss)
        \<and> page_shown (grid_pass rs click ss) \<le> page_count (grid_pass rs click ss)
        \<and> page_rows (grid_pass rs click ss)
            = take 48 (drop (48 * nat (page_shown (grid_pass rs click ss) - 1)) rs)
        \<and> (\<exists>q. current_page (session_after (grid_pass rs click ss)) = Some q
                 \<and> 1 \<le> q \<and> q \<le> page_count (grid_pass rs click ss)))
   \<and> (page_shown (grid_pass rs ClickNext ss) = page_count (grid_pass rs ClickNext ss) \<longrightarrow>
        next_disabled (grid_pass rs ClickNext ss)
        \<and> session_after (grid_pass rs ClickNext ss) = session_after (grid_pass rs NoClick ss))
   \<and> (page_shown (grid_pass rs ClickPrevious ss) = 1 \<longrightarrow>
        previous_disabled (grid_pass rs ClickPrevious ss)
        \<and> session_after (grid_pass rs ClickPrevious ss) = session_after (grid_pass rs NoClick ss))
   \<and> current_page (apply_filters ss) = Some 1"
proof -
  have t100: "total_pages 100 = 3"
    by (simp add: total_pages_def ITEMS_PER_PAGE_def)
  have shown: "page_shown (grid_pass rs click ss)
       = (case current_page ss of None \<Rightarrow> 1 | Some p \<Rightarrow> min p (total_pages (int (length rs))))"
    by (simp add: grid_pass_page min_def split: option.splits)
  have after: "current_page (session_after (grid_pass rs click ss))
       = Some (if click = ClickPrevious \<and> page_shown (grid_pass rs click ss) \<noteq> 1
               then page_shown (grid_pass rs click ss) - 1
               else if click = ClickNext
                       \<and> page_shown (grid_pass rs click ss) \<noteq> page_count (grid_pass rs click ss)
               then page_shown (grid_pass rs click ss) + 1
               else page_shown (grid_pass rs click ss))"
    by (simp add: grid_pass_after Let_def)
  have inv: "1 \<le> page_shown (grid_pass rs click ss)
        \<and> page_shown (grid_pass rs click ss) \<le> page_count (grid_pass rs click ss)
        \<and> page_rows (grid_pass rs click ss)
            = take 48 (drop (48 * nat (page_shown (grid_pass rs click ss) - 1)) rs)
        \<and> (\<exists>q. current_page (session_after (grid_pass rs click ss)) = Some q
                 \<and> 1 \<le> q \<and> q \<le> page_count (grid_pass rs click ss))"
    if "\<forall>p. current_page ss = Some p \<longrightarrow> 1 \<le> p"
  proof -
    have a: "1 \<le> page_shown (grid_pass rs click ss)"
      and b: "page_shown (grid_pass rs click ss) \<le> page_count (grid_pass rs click ss)"
      using that total_pages_pos [of "int (length rs)"]
      by (auto simp: grid_pass_page split: option.splits)
    have "nat ((page_shown (grid_pass rs click ss) - 1) * 48)
            = 48 * nat (page_shown (grid_pass rs click ss) - 1)"
      using a by (simp add: nat_mult_distrib)
    then have r: "page_rows (grid_pass rs click ss)
            = take 48 (drop (48 * nat (page_shown (grid_pass rs click ss) - 1)) rs)"
      using a py_slice_window [where a = "(page_shown (grid_pass rs click ss) - 1) * 48" and xs = rs and w = 48]
      by (simp add: grid_pass_rows)
    show ?thesis
      using a b r by (auto simp: grid_pass_after Let_def)
  qed
  have nx: "next_disabled (grid_pass rs ClickNext ss)
        \<and> session_after (grid_pass rs ClickNext ss) = session_after (grid_pass rs NoClick ss)"
    if "page_shown (grid_pass rs ClickNext ss) = page_count (grid_pass rs ClickNext ss)"
    using that grid_pass_disabled_noop [of ClickNext rs ss] by (simp add: grid_pass_page)
  have pv: "previous_disabled (grid_pass rs ClickPrevious ss)
        \<and> session_after (grid_pass rs ClickPrevious ss) = session_after (grid_pass rs NoClick ss)"
    if "page_shown (grid_pass rs ClickPrevious ss) = 1"
    using that grid_pass_disabled_noop [of ClickPrevious rs ss] by (simp add: grid_pass_page)
  have pc: "page_count (grid_pass rs click ss) = total_pages (int (length rs))"
    by (simp add: grid_pass_page)
  have ap: "current_page (apply_filters ss) = Some 1"
    by (simp add: apply_filters_def)
  show ?thesis
    using total_pages_ceiling [of n] t100 pc shown after inv nx pv ap by blast
qed

theorem pagination_bounds_and_buttons_witness:
  "page_count (grid_pass (blank_rows 100) ClickNext (on_page 3)) = 3
   \<and> page_shown (grid_pass (blank_rows 100) ClickNext (on_page 3)) = 3
   \<and> next_disabled (grid_pass (blank_rows 100) ClickNext (on_page 3))
   \<and> session_after (grid_pass (blank_rows 100) ClickNext (on_page 3))
       = session_after (grid_pass (blank_rows 100) NoClick (on_page 3))
   \<and> length (page_rows (grid_pass (blank_rows 100) ClickNext (on_page 3))) = 4
   \<and> page_shown (grid_pass (blank_rows 100) NoClick (on_page 7)) = 3
   \<and> page_shown (grid_pass (blank_rows 10) NoClick (on_page 3)) = 1
   \<and> current_page (session_after (grid_pass (blank_rows 100) ClickNext (on_page 2))) = Some 3
   \<and> current_page (session_after (grid_pass (blank_rows 100) ClickPrevious (on_page 3))) = Some 2"
proof -
  have l: "length (blank_rows 100) = 100" "length (blank_rows 10) = 10"
    by (simp_all add: blank_rows_def)
  have p: "current_page (on_page 3) = Some 3" "current_page (on_page 7) = Some 7"
    "current_page (on_page 2) = Some 2"
    by (simp_all add: on_page_def new_session_def)
  have t: "total_pages 100 = 3" "total_pages 10 = 1"
    by (simp_all add: total_pages_def ITEMS_PER_PAGE_def)
  note a = pagination_bounds_and_buttons [of 100 "blank_rows 100" ClickNext "on_page 3"]
  note b = pagination_bounds_and_buttons [of 100 "blank_rows 100" NoClick "on_page 7"]
  note c = pagination_bounds_and_buttons [of 100 "blank_rows 10" NoClick "on_page 3"]
  note d = pagination_bounds_and_buttons [of 100 "blank_rows 100" ClickNext "on_page 2"]
  note e = pagination_bounds_and_buttons [of 100 "blank_rows 100" ClickPrevious "on_page 3"]
  have a1: "page_shown (grid_pass (blank_rows 100) ClickNext (on_page 3)) = 3"
    and a2: "page_count (grid_pass (blank_rows 100) ClickNext (on_page 3)) = 3"
    using a by (simp_all add: l p t)
  have a3: "next_disabled (grid_pass (blank_rows 100) ClickNext (on_page 3))
       \<and> session_after (grid_pass (blank_rows 100) ClickNext (on_page 3))
       = session_after (grid_pass (blank_rows 100) NoClick (on_page 3))"
    using a a1 a2 by simp
  have a4: "length (page_rows (grid_pass (blank_rows 100) ClickNext (on_page 3))) = 4"
    using a a1 by (simp add: l p)
  have b1: "page_shown (grid_pass (blank_rows 100) NoClick (on_page 7)) = 3"
    using b by (simp add: l p t)
  have c1: "page_shown (grid_pass (blank_rows 10) NoClick (on_page 3)) = 1"
    using c by (simp add: l p t)
  have d0: "page_shown (grid_pass (blank_rows 100) ClickNext (on_page 2)) = 2"
    and d2: "page_count (grid_pass (blank_rows 100) ClickNext (on_page 2)) = 3"
    using d by (simp_all add: l p t)
  have d1: "current_page (session_after (grid_pass (blank_rows 100) ClickNext (on_page 2))) = Some 3"
    using d d0 d2 by simp
  have e0: "page_shown (grid_pass (blank_rows 100) ClickPrevious (on_page 3)) = 3"
    using e by (simp add: l p t)
  have e1: "current_page (session_after (grid_pass (blank_rows 100) ClickPrevious (on_page 3))) = Some 2"
    using e e0 by simp
  show ?thesis using a1 a2 a3 a4 b1 c1 d1 e1 by simp
qed

theorem pagination_counterexample:
  "total_pages 0 = 1
   \<and> \<lceil>(0::real) / 48\<rceil> = (0::int)
   \<and> page_shown (grid_pass (blank_rows 100) NoClick (on_page 2)) = 2
   \<and> page_shown (grid_pass (blank_rows 60) NoClick
        (session_after (grid_pass (blank_rows 100) NoClick (on_page 2)))) = 2"
proof -
  have a: "total_pages 0 = 1" by code_simp
  have b: "\<lceil>(0::real) / 48\<rceil> = (0::int)" by simp
  have c: "page_shown (grid_pass (blank_rows 100) NoClick (on_page 2)) = 2" by code_simp
  have d: "page_shown (grid_pass (blank_rows 60) NoClick
        (session_after (grid_pass (blank_rows 100) NoClick (on_page 2)))) = 2" by code_simp
  show ?thesis using a b c d by simp
qed

section \<open>The fetcher\<close>

text \<open>
  C8, as the code has it. In the dashboards the fetcher never raises: a transport failure, a
  status from 400 to 599 and a body that does not parse each give one error message, made of the
  text of the exception, and the empty table; any other status with a body that parses gives that
  table and no message. The report script catches nothing: it returns the table for status 200
  and a body that parses, and raises on a transport failure, on any other status (a RuntimeError
  naming the status) and on a body that does not parse.
\<close>

theorem fetcher_outcomes:
  "load_data_from_url (NoReply m) parsed = ([''Error loading data: '' @ m], empty_frame)
   \<and> (400 \<le> status \<and> status < 600 \<longrightarrow>
        load_data_from_url (Reply status http_error body) parsed
          = ([''Error loading data: '' @ http_error], empty_frame))
   \<and> (\<not> (400 \<le> status \<and> status < 600) \<longrightarrow>
        load_data_from_url (Reply status http_error body) (Inl m)
          = ([''Error loading data: '' @ m], empty_frame)
        \<and> load_data_from_url (Reply status http_error body) (Inr df) = ([], df))
   \<and> report_fetch (Reply 200 http_error body) (Inr df) = Inr df
   \<and> isl (report_fetch (NoReply m) parsed)
   \<and> isl (report_fetch (Reply 200 http_error body) (Inl m))
   \<and> (status \<noteq> 200 \<longrightarrow>
        raised (report_fetch (Reply status http_error body) parsed)
          = Some (RuntimeError (''Failed to fetch the CSV file. Status code: '' @ digits_of status)))"
  by (simp add: load_data_from_url_def fetch_body_def raise_for_status_def bind_err_def
      error_text_def report_fetch_def raised_def)

theorem fetcher_outcomes_witness:
  "load_data_from_url (Reply 503 unavailable_text tiny_csv) (Inr tiny_table)
     = ([''Error loading data: '' @ unavailable_text], empty_frame)
   \<and> load_data_from_url (Reply 200 [] tiny_csv) (Inr tiny_table) = ([], tiny_table)
   \<and> raised (report_fetch (Reply 503 unavailable_text tiny_csv) (Inr tiny_table))
       = Some (RuntimeError ''Failed to fetch the CSV file. Status code: 503'')"
proof -
  have d: "digits_of 503 = ''503''" by code_simp
  show ?thesis
    using fetcher_outcomes [where status = 503 and body = tiny_csv and df = tiny_table
                               and parsed = "Inr tiny_table" and http_error = unavailable_text]
      fetcher_outcomes [where status = 200 and body = tiny_csv and df = tiny_table
                               and http_error = "[]"]
    by (simp add: d)
qed

theorem fetcher_raises_counterexample:
  "raised (report_fetch (Reply 404 not_found_text ''Not Found'') (Inl ''not read''))
     = Some (RuntimeError ''Failed to fetch the CSV file. Status code: 404'')
   \<and> fst (load_data_from_url (Reply 300 [] tiny_csv) (Inr tiny_table)) = []
   \<and> skus (snd (load_data_from_url (Reply 300 [] tiny_csv) (Inr tiny_table))) = [Str ''GP1'']
   \<and> \<not> is_empty_frame (snd (load_data_from_url (Reply 300 [] tiny_csv) (Inr tiny_table)))"
  by code_simp

section \<open>Decimal text with commas\<close>








section \<open>Sorting by the positions the library returns\<close>










end
